theory Spec2Isabelle
  imports Main "HOL-Library.Word"
begin

unbundle bit_operations_syntax

section \<open>The kernel of p2/os.c: data model\<close>

text \<open>
  The enumerations of kernel.h. A \<open>KERNEL_REQUEST_TYPE\<close> field is a C integer, so it can
  hold a value outside the enumeration; \<open>INVALID_REQUEST n\<close> stands for every such value
  (the \<open>default\<close> branch of the switch in \<open>Next_Kernel_Request\<close>).
\<close>

datatype ERROR_TYPE =
    NO_ERR
  | INVALID_KERNET_REQUEST_ERR
  | KERNEL_INACTIVE_ERR
  | MAX_PROCESS_ERR
  | PID_NOT_FOUND_ERR
  | SUSPEND_NONRUNNING_TASK_ERR
  | RESUME_NONSUSPENDED_TASK_ERR

datatype PROCESS_STATES = DEAD | READY | RUNNING | SUSPENDED | SLEEPING

datatype KERNEL_REQUEST_TYPE =
    NONE | CREATE | YIELD | TERMINATE | SUSPEND | RESUME | SLEEP
  | INVALID_REQUEST nat

text \<open>
  Modelled from the spec: the header os.h, which declares the types \<open>PID\<close>, \<open>PRIORITY\<close> and
  \<open>voidfuncptr\<close> and the constants \<open>MAXTHREAD\<close> and \<open>WORKSPACE\<close>, is not among the sources.
  The target is an 8-bit AVR: \<open>int\<close> and \<open>unsigned int\<close> are 16 bits wide, and so is a
  function pointer once cast to \<open>unsigned int\<close>. A PID (an integer, by the specification) is
  taken as 16 bits wide like \<open>last_PID\<close>, which \<open>Task_Create\<close> returns as a PID; a priority
  (an integer from 0 to 10) is a natural number, which the code only stores and copies.
  \<open>MAXTHREAD\<close> and \<open>WORKSPACE\<close> are parameters: the sizes of the table and of a workspace
  (see below).
\<close>

type_synonym PID = "16 word"
type_synonym PRIORITY = nat
type_synonym voidfuncptr = "16 word"

text \<open>
  A pointer into a task stack is the slot that owns the workspace and the byte offset
  from \<open>workSpace[0]\<close>; \<open>NULL\<close> is what \<open>memset\<close> leaves in a pointer field.
\<close>

datatype stack_ptr = NULL | WorkSpace_ptr nat int

record PD =
  pid :: PID
  pri :: PRIORITY
  state :: PROCESS_STATES
  request :: KERNEL_REQUEST_TYPE
  request_arg :: "16 word"
  arg :: "16 word"
  sp :: stack_ptr
  workSpace :: "8 word list"
  code :: voidfuncptr

text \<open>
  The globals of os.c. \<open>Cp\<close> points into \<open>Process\<close>, so it is the index of the slot
  (before the first \<open>Dispatch\<close> the C pointer is null and is not dereferenced: every
  dereference is guarded by \<open>KernelActive\<close>). \<open>NextP\<close> and \<open>Tasks\<close> are natural numbers:
  both stay at most \<open>MAXTHREAD\<close>, which is below \<open>2 ^ 16\<close> on this target, so the 16-bit
  arithmetic never wraps. \<open>Interrupts\<close> is the global interrupt flag that
  \<open>Disable_Interrupt\<close> (cli) and \<open>Enable_Interrupt\<close> (sei) write. \<open>KernelSp\<close> is read and
  written by the context-switch assembly only and is left out.

  \<open>MAXTHREAD\<close> is the number of elements of \<open>Process\<close>, and \<open>WORKSPACE\<close> the number of
  bytes of a slot's \<open>workSpace\<close>.
\<close>

record kernel =
  Process :: "PD list"
  Cp :: nat
  CurrentSp :: stack_ptr
  NextP :: nat
  KernelActive :: bool
  Tasks :: nat
  last_PID :: "16 word"
  err :: ERROR_TYPE
  Interrupts :: bool

definition MAXTHREAD :: "kernel \<Rightarrow> nat" where
  "MAXTHREAD s = length (Process s)"

definition WORKSPACE :: "PD \<Rightarrow> nat" where
  "WORKSPACE p = length (workSpace p)"

definition Disable_Interrupt :: "kernel \<Rightarrow> kernel" where
  "Disable_Interrupt s = s\<lparr>Interrupts := False\<rparr>"

definition Enable_Interrupt :: "kernel \<Rightarrow> kernel" where
  "Enable_Interrupt s = s\<lparr>Interrupts := True\<rparr>"

text \<open>An assignment through \<open>Cp\<close>: \<open>Cp->field = v\<close> writes the slot \<open>Process[Cp]\<close>.\<close>

definition upd_Cp :: "(PD \<Rightarrow> PD) \<Rightarrow> kernel \<Rightarrow> kernel" where
  "upd_Cp g s = s\<lparr>Process := (Process s)[Cp s := g (Process s ! Cp s)]\<rparr>"

section \<open>Kernel helpers\<close>

text \<open>
  \<open>findProcessByPID\<close>: the loop over \<open>i = 0 .. MAXTHREAD - 1\<close> returns the first slot whose
  \<open>pid\<close> equals the argument (its index), or \<open>None\<close> for the null pointer. The comparison
  is on 16-bit values.
\<close>

primrec scan_pid :: "PD list \<Rightarrow> 16 word \<Rightarrow> nat option" where
  "scan_pid [] q = None"
| "scan_pid (p # ps) q = (if pid p = q then Some 0 else map_option Suc (scan_pid ps q))"

definition findProcessByPID :: "kernel \<Rightarrow> 16 word \<Rightarrow> nat option" where
  "findProcessByPID s q = scan_pid (Process s) q"

text \<open>\<open>findPIDByFuncPtr\<close>: the pid of the first slot whose \<open>code\<close> is \<open>f\<close>, else \<open>-1\<close>.\<close>

primrec scan_code :: "PD list \<Rightarrow> voidfuncptr \<Rightarrow> 16 word" where
  "scan_code [] f = - 1"
| "scan_code (p # ps) f = (if code p = f then pid p else scan_code ps f)"

definition findPIDByFuncPtr :: "kernel \<Rightarrow> voidfuncptr \<Rightarrow> 16 word" where
  "findPIDByFuncPtr s f = scan_code (Process s) f"

section \<open>The tick interrupt\<close>

text \<open>
  \<open>ISR(TIMER1_COMPA_vect)\<close>: iteration \<open>i\<close> of the loop reads and writes \<open>Process[i]\<close> only,
  so the loop is a map over the table. \<open>--request_arg <= 0\<close> compares the decremented
  16-bit value as a signed number; at the least value the decrement wraps.
\<close>

definition tick_PD :: "PD \<Rightarrow> PD" where
  "tick_PD p =
     (if state p = SLEEPING then
        let p1 = p\<lparr>request_arg := request_arg p - 1\<rparr>
        in (if sint (request_arg p1) \<le> 0 then p1\<lparr>state := READY\<rparr> else p1)
      else p)"

definition ISR :: "kernel \<Rightarrow> kernel" where
  "ISR s = s\<lparr>Process := map tick_PD (Process s)\<rparr>"

section \<open>The dispatcher\<close>

text \<open>
  \<open>Dispatch\<close>. The while loop runs until \<open>Process[NextP]\<close> is READY; it need not end, so it
  is a partial function and \<open>None\<close> is a loop that never ends. After more than
  \<open>MAXTHREAD\<close> steps the loop enables interrupts; from then on the tick interrupt can be
  taken between two steps. The list \<open>ticks\<close> is what the timer does during this call: one
  element for each step made with interrupts enabled, \<open>True\<close> when the interrupt is taken
  there; once the list is used up no interrupt comes any more. The interrupt routine
  writes no variable of the loop and the loop writes no slot, so the place of the
  interrupt inside a step makes no difference. An interrupt taken after the last test
  of the loop and before \<open>Disable_Interrupt\<close> changes SLEEPING slots only and reads
  neither \<open>Cp\<close> nor \<open>NextP\<close>: it gives the state that the same interrupt gives right
  after the selected task has started to run, so it is not a case of its own. The loop
  counter is a natural number: once it has passed \<open>MAXTHREAD\<close> the interrupts stay
  enabled, whatever its later values.
\<close>

partial_function (option) Dispatch_loop :: "bool list \<Rightarrow> nat \<Rightarrow> kernel \<Rightarrow> kernel option" where
  "Dispatch_loop ticks i s =
     (if state (Process s ! NextP s) \<noteq> READY then
        let s1 = s\<lparr>NextP := (NextP s + 1) mod MAXTHREAD s\<rparr>;
            s2 = (if i + 1 > MAXTHREAD s then Enable_Interrupt s1 else s1)
        in (if Interrupts s2 then
              (case ticks of
                 [] \<Rightarrow> Dispatch_loop [] (i + 1) s2
               | t # ts \<Rightarrow> Dispatch_loop ts (i + 1) (if t then ISR s2 else s2))
            else Dispatch_loop ticks (i + 1) s2)
      else Some s)"

declare Dispatch_loop.simps [code]

definition Dispatch_select :: "kernel \<Rightarrow> kernel" where
  "Dispatch_select s0 =
     (let s1 = Disable_Interrupt s0;
          s2 = s1\<lparr>Cp := NextP s1\<rparr>;
          s3 = s2\<lparr>CurrentSp := sp (Process s2 ! Cp s2)\<rparr>;
          s4 = upd_Cp (\<lambda>p. p\<lparr>state := RUNNING\<rparr>) s3
      in s4\<lparr>NextP := (NextP s4 + 1) mod MAXTHREAD s4\<rparr>)"

definition Dispatch :: "bool list \<Rightarrow> kernel \<Rightarrow> kernel option" where
  "Dispatch ticks s = map_option Dispatch_select (Dispatch_loop ticks 0 s)"

section \<open>Task creation\<close>

text \<open>
  The scan \<open>for (x = 0; x < MAXTHREAD; x++) if (Process[x].state == DEAD) break;\<close> leaves
  \<open>x\<close> at the first DEAD slot, or at \<open>MAXTHREAD\<close> when there is none.
\<close>

primrec scan_DEAD :: "PD list \<Rightarrow> nat" where
  "scan_DEAD [] = 0"
| "scan_DEAD (p # ps) = (if state p = DEAD then 0 else Suc (scan_DEAD ps))"

text \<open>
  The initial stack. \<open>*sp-- = v\<close> stores one byte at the offset and steps the offset down.
  The bytes stored are, in this order: the address of \<open>Task_Terminate\<close> (low byte, high
  byte, zero), the entry point \<open>f\<close> in the same layout, and the values of the loop
  \<open>for (counter = 0; counter < 34; counter++)\<close> (os.c defines \<open>DEBUG\<close>). A store is
  inside the workspace when \<open>WORKSPACE\<close> is at least 41; a smaller workspace would be
  written below its first byte, which is outside this model (the store is dropped).
\<close>

definition push :: "8 word list \<times> int \<Rightarrow> 8 word \<Rightarrow> 8 word list \<times> int" where
  "push st v = (case st of (ws, off) \<Rightarrow>
     ((if 0 \<le> off then ws[nat off := v] else ws), off - 1))"

definition stack_bytes :: "voidfuncptr \<Rightarrow> voidfuncptr \<Rightarrow> 8 word list" where
  "stack_bytes tt f =
     [ucast (tt AND 0xff), ucast (drop_bit 8 tt AND 0xff), 0x00,
      ucast (f AND 0xff), ucast (drop_bit 8 f AND 0xff), 0x00]
     @ map of_nat [0 ..< 34]"

definition initial_stack :: "voidfuncptr \<Rightarrow> voidfuncptr \<Rightarrow> nat \<Rightarrow> 8 word list \<times> int" where
  "initial_stack tt f w = foldl push (replicate w 0, int w - 1) (stack_bytes tt f)"

text \<open>
  \<open>Kernel_Create_Task\<close>; \<open>tt\<close> is the address of \<open>Task_Terminate\<close>, fixed at link time.
  When \<open>Tasks\<close> differs from \<open>MAXTHREAD\<close> and no slot is DEAD, the C code builds the
  descriptor at \<open>Process[MAXTHREAD]\<close>, behind the table; the model drops that store, and
  the theorems on creation are stated for the case that a DEAD slot exists.
\<close>

definition Kernel_Create_Task ::
  "voidfuncptr \<Rightarrow> voidfuncptr \<Rightarrow> PRIORITY \<Rightarrow> 16 word \<Rightarrow> kernel \<Rightarrow> kernel" where
  "Kernel_Create_Task tt f py a s =
     (if Tasks s = MAXTHREAD s then s\<lparr>err := MAX_PROCESS_ERR\<rparr>
      else
        let x = scan_DEAD (Process s);
            s1 = s\<lparr>Tasks := Tasks s + 1\<rparr>;
            p = Process s1 ! x;
            st = initial_stack tt f (WORKSPACE p);
            s2 = s1\<lparr>last_PID := last_PID s1 + 1\<rparr>;
            p' = p\<lparr>workSpace := fst st, pid := last_PID s2, pri := py, arg := a,
                   request := NONE, state := READY, sp := WorkSpace_ptr x (snd st),
                   code := f\<rparr>
        in s2\<lparr>Process := (Process s2)[x := p'], err := NO_ERR\<rparr>)"

section \<open>Suspend and resume\<close>

definition Kernel_Suspend_Task :: "kernel \<Rightarrow> kernel" where
  "Kernel_Suspend_Task s =
     (case findProcessByPID s (request_arg (Process s ! Cp s)) of
        None \<Rightarrow> s\<lparr>err := PID_NOT_FOUND_ERR\<rparr>
      | Some i \<Rightarrow>
          if state (Process s ! i) \<noteq> READY then s\<lparr>err := SUSPEND_NONRUNNING_TASK_ERR\<rparr>
          else s\<lparr>Process := (Process s)[i := (Process s ! i)\<lparr>state := SUSPENDED\<rparr>],
                 err := NO_ERR\<rparr>)"

definition Kernel_Resume_Task :: "kernel \<Rightarrow> kernel" where
  "Kernel_Resume_Task s =
     (case findProcessByPID s (request_arg (Process s ! Cp s)) of
        None \<Rightarrow> s\<lparr>err := PID_NOT_FOUND_ERR\<rparr>
      | Some i \<Rightarrow>
          if state (Process s ! i) \<noteq> SUSPENDED then s\<lparr>err := RESUME_NONSUSPENDED_TASK_ERR\<rparr>
          else s\<lparr>Process := (Process s)[i := (Process s ! i)\<lparr>state := READY\<rparr>],
                 err := NO_ERR\<rparr>)"

section \<open>The kernel loop\<close>

text \<open>
  \<open>Next_Kernel_Request\<close>, one iteration in two parts.
  \<open>Next_Kernel_Request_exit\<close> is the head of the loop body up to \<open>Exit_Kernel\<close>: it clears
  the request of the current task and loads its stack pointer. The task then runs until
  the kernel is entered again. \<open>Next_Kernel_Request_switch\<close> is the rest of the body: it
  saves \<open>CurrentSp\<close> and branches on the request.
\<close>

definition Next_Kernel_Request_exit :: "kernel \<Rightarrow> kernel" where
  "Next_Kernel_Request_exit s0 =
     (let s1 = upd_Cp (\<lambda>p. p\<lparr>request := NONE\<rparr>) s0
      in s1\<lparr>CurrentSp := sp (Process s1 ! Cp s1)\<rparr>)"

text \<open>
  Modelled from the spec: \<open>Enter_Kernel\<close> is assembly (cswitch) that is not among the
  sources. It pushes the context of the task on the task's stack and stores the resulting
  stack pointer into \<open>CurrentSp\<close>; the argument \<open>usp\<close> is that pointer. No claim is decided
  by this definition: the kernel only copies the value into the descriptor.
\<close>

definition Enter_Kernel :: "stack_ptr \<Rightarrow> kernel \<Rightarrow> kernel" where
  "Enter_Kernel usp s = s\<lparr>CurrentSp := usp\<rparr>"

definition Next_Kernel_Request_switch ::
  "voidfuncptr \<Rightarrow> bool list \<Rightarrow> kernel \<Rightarrow> kernel option" where
  "Next_Kernel_Request_switch tt ticks s0 =
     (let s = upd_Cp (\<lambda>p. p\<lparr>sp := CurrentSp s0\<rparr>) s0;
          cp = Process s ! Cp s
      in case request cp of
           CREATE \<Rightarrow> Some (Kernel_Create_Task tt (code cp) (pri cp) (arg cp) s)
         | TERMINATE \<Rightarrow> Dispatch ticks (upd_Cp (\<lambda>p. p\<lparr>state := DEAD\<rparr>) s)
         | SUSPEND \<Rightarrow> Some (Kernel_Suspend_Task s)
         | RESUME \<Rightarrow> Some (Kernel_Resume_Task s)
         | SLEEP \<Rightarrow> Dispatch ticks (upd_Cp (\<lambda>p. p\<lparr>state := SLEEPING\<rparr>) s)
         | YIELD \<Rightarrow> Dispatch ticks (upd_Cp (\<lambda>p. p\<lparr>state := READY\<rparr>) s)
         | NONE \<Rightarrow> Dispatch ticks (upd_Cp (\<lambda>p. p\<lparr>state := READY\<rparr>) s)
         | INVALID_REQUEST n \<Rightarrow> Some (s\<lparr>err := INVALID_KERNET_REQUEST_ERR\<rparr>))"

text \<open>
  From the entry into the kernel to the next \<open>Exit_Kernel\<close>: the state in which the next
  task runs, or \<open>None\<close> when the dispatcher never finds a task.
\<close>

definition Kernel_Iteration ::
  "voidfuncptr \<Rightarrow> bool list \<Rightarrow> stack_ptr \<Rightarrow> kernel \<Rightarrow> kernel option" where
  "Kernel_Iteration tt ticks usp s =
     map_option Next_Kernel_Request_exit
       (Next_Kernel_Request_switch tt ticks (Enter_Kernel usp s))"

section \<open>The public calls\<close>

text \<open>
  \<open>OS_Init\<close>: \<open>memset\<close> zeroes every field of every slot (the state \<open>DEAD\<close>, the request
  \<open>NONE\<close> and the null pointer are the zero values). \<open>last_PID\<close> and \<open>err\<close> keep their
  values; their static initialisers are \<open>0\<close> and \<open>NO_ERR\<close>.
\<close>

definition zero_PD :: "nat \<Rightarrow> PD" where
  "zero_PD w = \<lparr>pid = 0, pri = 0, state = DEAD, request = NONE, request_arg = 0, arg = 0,
                sp = NULL, workSpace = replicate w 0, code = 0\<rparr>"

definition OS_Init :: "kernel \<Rightarrow> kernel" where
  "OS_Init s =
     s\<lparr>Tasks := 0, KernelActive := False, NextP := 0,
       Process := map (\<lambda>p. (zero_PD (WORKSPACE p))\<lparr>state := DEAD\<rparr>) (Process s)\<rparr>"

text \<open>
  \<open>OS_Start\<close> returns at once when its test fails. Otherwise it never returns: the result
  is the state in which the first task runs (\<open>Timer_init\<close> writes timer registers only,
  which are not part of the state).
\<close>

definition OS_Start :: "bool list \<Rightarrow> kernel \<Rightarrow> kernel option" where
  "OS_Start ticks s =
     (if \<not> KernelActive s \<and> Tasks s > 0 then
        map_option Next_Kernel_Request_exit
          (Dispatch ticks ((Disable_Interrupt s)\<lparr>KernelActive := True\<rparr>))
      else Some s)"

text \<open>
  The wrappers \<open>Task_Terminate\<close>, \<open>Task_Yield\<close>, \<open>Task_Suspend\<close>, \<open>Task_Resume\<close> and
  \<open>Task_Sleep\<close> are modelled up to their call of \<open>Enter_Kernel\<close>; what the kernel does
  after that call is \<open>Kernel_Iteration\<close>.
\<close>

definition Task_Terminate :: "kernel \<Rightarrow> kernel" where
  "Task_Terminate s =
     (if \<not> KernelActive s then s\<lparr>err := KERNEL_INACTIVE_ERR\<rparr>
      else upd_Cp (\<lambda>p. p\<lparr>request := TERMINATE\<rparr>) (Disable_Interrupt s))"

definition Task_Yield :: "kernel \<Rightarrow> kernel" where
  "Task_Yield s =
     (if \<not> KernelActive s then s\<lparr>err := KERNEL_INACTIVE_ERR\<rparr>
      else upd_Cp (\<lambda>p. p\<lparr>request := YIELD\<rparr>) (Disable_Interrupt s))"

definition Task_Suspend :: "PID \<Rightarrow> kernel \<Rightarrow> kernel" where
  "Task_Suspend q s =
     (if \<not> KernelActive s then s\<lparr>err := KERNEL_INACTIVE_ERR\<rparr>
      else upd_Cp (\<lambda>p. p\<lparr>request_arg := q\<rparr>)
             (upd_Cp (\<lambda>p. p\<lparr>request := SUSPEND\<rparr>) (Disable_Interrupt s)))"

definition Task_Resume :: "PID \<Rightarrow> kernel \<Rightarrow> kernel" where
  "Task_Resume q s =
     (if \<not> KernelActive s then s\<lparr>err := KERNEL_INACTIVE_ERR\<rparr>
      else upd_Cp (\<lambda>p. p\<lparr>request_arg := q\<rparr>)
             (upd_Cp (\<lambda>p. p\<lparr>request := RESUME\<rparr>) (Disable_Interrupt s)))"

definition Task_Sleep :: "16 word \<Rightarrow> kernel \<Rightarrow> kernel" where
  "Task_Sleep t s =
     (if \<not> KernelActive s then s\<lparr>err := KERNEL_INACTIVE_ERR\<rparr>
      else upd_Cp (\<lambda>p. p\<lparr>request := SLEEP\<rparr>)
             (upd_Cp (\<lambda>p. p\<lparr>request_arg := t\<rparr>) (Disable_Interrupt s)))"

text \<open>
  \<open>Task_Create\<close>. With the kernel running, the wrapper writes the parameters into the
  caller's own descriptor (\<open>Task_Create_request\<close>) and enters the kernel; the CREATE
  branch does not dispatch, so the next \<open>Exit_Kernel\<close> resumes the caller, which then
  reads \<open>err\<close> and \<open>last_PID\<close> (\<open>Task_Create_result\<close>).
\<close>

definition Task_Create_request :: "voidfuncptr \<Rightarrow> PRIORITY \<Rightarrow> 16 word \<Rightarrow> kernel \<Rightarrow> kernel" where
  "Task_Create_request f py a s =
     upd_Cp (\<lambda>p. p\<lparr>code := f\<rparr>)
       (upd_Cp (\<lambda>p. p\<lparr>request := CREATE\<rparr>)
         (upd_Cp (\<lambda>p. p\<lparr>arg := a\<rparr>)
           (upd_Cp (\<lambda>p. p\<lparr>pri := py\<rparr>) (Disable_Interrupt s))))"

definition Task_Create_result :: "kernel \<Rightarrow> PID" where
  "Task_Create_result s = (if err s = MAX_PROCESS_ERR then 0 else last_PID s)"

definition Task_Create ::
  "voidfuncptr \<Rightarrow> bool list \<Rightarrow> stack_ptr \<Rightarrow> voidfuncptr \<Rightarrow> PRIORITY \<Rightarrow> 16 word \<Rightarrow> kernel
     \<Rightarrow> (PID \<times> kernel) option" where
  "Task_Create tt ticks usp f py a s =
     (if KernelActive s then
        map_option (\<lambda>s'. (Task_Create_result s', s'))
          (Kernel_Iteration tt ticks usp (Task_Create_request f py a s))
      else
        (let s' = Kernel_Create_Task tt f py a s in Some (Task_Create_result s', s')))"

section \<open>Notions of the specification\<close>

text \<open>
  The target of a suspend or resume request is the PID in \<open>Cp->request_arg\<close>. The slot a
  PID denotes is the first slot of the table, in index order, whose \<open>pid\<close> field has that
  value.
\<close>

definition Cp_request_arg :: "kernel \<Rightarrow> 16 word" where
  "Cp_request_arg s = request_arg (Process s ! Cp s)"

definition first_with_pid :: "kernel \<Rightarrow> 16 word \<Rightarrow> nat \<Rightarrow> bool" where
  "first_with_pid s q i \<longleftrightarrow>
     i < MAXTHREAD s \<and> pid (Process s ! i) = q \<and> (\<forall>j<i. pid (Process s ! j) \<noteq> q)"

section \<open>Round-robin selection\<close>

text \<open>
  The first READY slot at or cyclically after \<open>NextP\<close>: the slot \<open>d\<close> places after
  \<open>NextP\<close>, modulo the size of the table, for the least such \<open>d\<close>. \<open>with_pri g\<close>
  replaces the priority stored in every slot \<open>i\<close> by \<open>g i\<close>.
\<close>

definition first_READY_after_NextP :: "kernel \<Rightarrow> nat \<Rightarrow> bool" where
  "first_READY_after_NextP s k \<longleftrightarrow>
     (\<exists>d<MAXTHREAD s. k = (NextP s + d) mod MAXTHREAD s
        \<and> state (Process s ! k) = READY
        \<and> (\<forall>j<d. state (Process s ! ((NextP s + j) mod MAXTHREAD s)) \<noteq> READY))"

definition with_pri :: "(nat \<Rightarrow> PRIORITY) \<Rightarrow> kernel \<Rightarrow> kernel" where
  "with_pri g s =
     s\<lparr>Process := map (\<lambda>(i, p). p\<lparr>pri := g i\<rparr>) (enumerate 0 (Process s))\<rparr>"

section \<open>Allocation of a slot\<close>

text \<open>
  The slot a creation allocates is the first DEAD slot in index order. \<open>new_PD\<close> is the
  descriptor that \<open>Kernel_Create_Task\<close> builds in that slot; \<open>request_arg\<close> is the one
  field it does not assign.
\<close>

definition first_DEAD :: "kernel \<Rightarrow> nat \<Rightarrow> bool" where
  "first_DEAD s x \<longleftrightarrow>
     x < MAXTHREAD s \<and> state (Process s ! x) = DEAD \<and> (\<forall>j<x. state (Process s ! j) \<noteq> DEAD)"

definition new_PD :: "voidfuncptr \<Rightarrow> voidfuncptr \<Rightarrow> PRIORITY \<Rightarrow> 16 word \<Rightarrow> kernel \<Rightarrow> nat \<Rightarrow> PD" where
  "new_PD tt f py a s x =
     \<lparr>pid = last_PID s + 1, pri = py, state = READY, request = NONE,
      request_arg = request_arg (Process s ! x), arg = a,
      sp = WorkSpace_ptr x (snd (initial_stack tt f (WORKSPACE (Process s ! x)))),
      workSpace = fst (initial_stack tt f (WORKSPACE (Process s ! x))), code = f\<rparr>"

section \<open>The states the kernel reaches\<close>

text \<open>
  A task runs between an \<open>Exit_Kernel\<close> and the next entry into the kernel. While it runs
  it can call the wrappers, and the timer interrupt can run its routine. \<open>Task_call\<close> is
  the wrapper of a call (the part of it before \<open>Enter_Kernel\<close>).
  \<open>reachable tt s\<close> holds for the states at those moments, from \<open>OS_Init\<close> on:
  \<^item> \<open>init\<close>: \<open>OS_Init\<close> on the memory at reset (\<open>last_PID\<close> has its initialiser \<open>0\<close>, the
    table is not empty and has fewer than \<open>2 ^ 16\<close> slots);
  \<^item> \<open>create\<close>: a call of \<open>Task_Create\<close>, before or after \<open>OS_Start\<close>;
  \<^item> \<open>early\<close>: another wrapper called before \<open>OS_Start\<close> (it only sets \<open>err\<close>);
  \<^item> \<open>start\<close>: \<open>OS_Start\<close>, up to the moment the first task runs;
  \<^item> \<open>call\<close>: the running task calls a wrapper and the kernel runs until the next
    \<open>Exit_Kernel\<close>;
  \<^item> \<open>entry\<close>: the kernel is entered with any value \<open>r\<close> in the request field (\<open>NONE\<close> when
    an interrupt enters the kernel, or a value outside the enumeration), interrupts
    disabled as \<open>Enter_Kernel\<close> requires;
  \<^item> \<open>tick\<close>: the timer interrupt routine runs while the task runs. (The flag
    \<open>Interrupts\<close> follows \<open>cli\<close> and \<open>sei\<close> inside the kernel; while a task runs, its own
    status register, which \<open>Exit_Kernel\<close> restores, decides, so this rule does not read the
    flag.)
\<close>

datatype syscall =
    Call_Terminate | Call_Yield | Call_Suspend PID | Call_Resume PID | Call_Sleep "16 word"

fun Task_call :: "syscall \<Rightarrow> kernel \<Rightarrow> kernel" where
  "Task_call Call_Terminate = Task_Terminate"
| "Task_call Call_Yield = Task_Yield"
| "Task_call (Call_Suspend q) = Task_Suspend q"
| "Task_call (Call_Resume q) = Task_Resume q"
| "Task_call (Call_Sleep t) = Task_Sleep t"

inductive reachable :: "voidfuncptr \<Rightarrow> kernel \<Rightarrow> bool" for tt :: voidfuncptr where
  init: "last_PID s0 = 0 \<Longrightarrow> 0 < MAXTHREAD s0 \<Longrightarrow> MAXTHREAD s0 < 2 ^ 16 \<Longrightarrow>
           reachable tt (OS_Init s0)"
| create: "reachable tt s \<Longrightarrow> Task_Create tt ticks usp f py a s = Some (r, s') \<Longrightarrow>
           reachable tt s'"
| early: "reachable tt s \<Longrightarrow> \<not> KernelActive s \<Longrightarrow> reachable tt (Task_call c s)"
| start: "reachable tt s \<Longrightarrow> OS_Start ticks s = Some s' \<Longrightarrow> reachable tt s'"
| call: "reachable tt s \<Longrightarrow> KernelActive s \<Longrightarrow>
           Kernel_Iteration tt ticks usp (Task_call c s) = Some s' \<Longrightarrow> reachable tt s'"
| entry: "reachable tt s \<Longrightarrow> KernelActive s \<Longrightarrow>
           Kernel_Iteration tt ticks usp
             (upd_Cp (\<lambda>p. p\<lparr>request := r\<rparr>) (Disable_Interrupt s)) = Some s' \<Longrightarrow>
           reachable tt s'"
| tick: "reachable tt s \<Longrightarrow> KernelActive s \<Longrightarrow> reachable tt (ISR s)"

text \<open>
  \<open>live\<close> counts the slots that are not DEAD. \<open>one_RUNNING\<close>: \<open>Cp\<close> is a slot of the table,
  it is RUNNING and no other slot is. \<open>none_RUNNING\<close> is the state of the table before
  \<open>OS_Start\<close> and inside the kernel between retiring the current task and dispatching the
  next. \<open>table_ok\<close> collects what the kernel relies on: \<open>NextP\<close> is inside the table,
  \<open>Tasks\<close> is at most \<open>MAXTHREAD\<close> and at least the number of live slots, \<open>last_PID\<close> has
  not wrapped, and a slot with pid 0 is DEAD.
\<close>

definition live :: "kernel \<Rightarrow> nat" where
  "live s = length (filter (\<lambda>p. state p \<noteq> DEAD) (Process s))"

definition table_ok :: "kernel \<Rightarrow> bool" where
  "table_ok s \<longleftrightarrow>
     0 < MAXTHREAD s \<and> MAXTHREAD s < 2 ^ 16 \<and> NextP s < MAXTHREAD s
     \<and> Tasks s \<le> MAXTHREAD s \<and> live s \<le> Tasks s \<and> unat (last_PID s) = Tasks s
     \<and> (\<forall>i<MAXTHREAD s. pid (Process s ! i) = 0 \<longrightarrow> state (Process s ! i) = DEAD)"

definition one_RUNNING :: "kernel \<Rightarrow> bool" where
  "one_RUNNING s \<longleftrightarrow>
     Cp s < MAXTHREAD s \<and> (\<forall>i<MAXTHREAD s. state (Process s ! i) = RUNNING \<longleftrightarrow> i = Cp s)"

definition none_RUNNING :: "kernel \<Rightarrow> bool" where
  "none_RUNNING s \<longleftrightarrow> (\<forall>i<MAXTHREAD s. state (Process s ! i) \<noteq> RUNNING)"

definition kernel_inv :: "kernel \<Rightarrow> bool" where
  "kernel_inv s \<longleftrightarrow> table_ok s \<and> (if KernelActive s then one_RUNNING s else none_RUNNING s)"

text \<open>
  Two tables have the \<open>same_slots\<close> when they agree on the pid of every slot, on which
  slots are DEAD and on which are RUNNING. \<open>loop_frame\<close> is what the loop of \<open>Dispatch\<close>
  keeps. \<open>Task_Create_entered\<close> is the state in which the kernel handles the CREATE
  request of \<open>Task_Create\<close>.
\<close>

definition same_slots :: "kernel \<Rightarrow> kernel \<Rightarrow> bool" where
  "same_slots s s' \<longleftrightarrow>
     map pid (Process s') = map pid (Process s)
     \<and> map (\<lambda>p. state p = DEAD) (Process s') = map (\<lambda>p. state p = DEAD) (Process s)
     \<and> map (\<lambda>p. state p = RUNNING) (Process s') = map (\<lambda>p. state p = RUNNING) (Process s)"

definition loop_frame :: "kernel \<Rightarrow> kernel \<Rightarrow> bool" where
  "loop_frame s s' \<longleftrightarrow>
     same_slots s s' \<and> Tasks s' = Tasks s \<and> last_PID s' = last_PID s \<and> Cp s' = Cp s
     \<and> KernelActive s' = KernelActive s \<and> err s' = err s \<and> CurrentSp s' = CurrentSp s
     \<and> (0 < MAXTHREAD s \<longrightarrow> NextP s' < MAXTHREAD s)"

definition Task_Create_entered ::
  "stack_ptr \<Rightarrow> voidfuncptr \<Rightarrow> PRIORITY \<Rightarrow> 16 word \<Rightarrow> kernel \<Rightarrow> kernel" where
  "Task_Create_entered usp f py a s =
     upd_Cp (\<lambda>p. p\<lparr>sp := usp\<rparr>) (Enter_Kernel usp (Task_Create_request f py a s))"

section \<open>A run of the demo program\<close>

text \<open>
  \<open>boot m w\<close> is the memory at reset for a table of \<open>m\<close> slots with \<open>w\<close> bytes of workspace
  each: static storage is zero, \<open>last_PID\<close> and \<open>err\<close> have their initialisers, interrupts
  are off. The demo states follow \<open>main\<close> in a table of four slots with 48 bytes of
  workspace: \<open>OS_Init\<close>, then the three tasks Ping, Pong and suspend_pong (here at the
  addresses 0x0123, 0x0234, 0x0345, with \<open>Task_Terminate\<close> at 0x0456), then \<open>OS_Start\<close>.
  \<open>demo_started\<close> is the state in which Ping first runs, \<open>demo_ping_asleep\<close> the state
  after Ping called \<open>Task_Sleep(1)\<close>, \<open>demo_sleeping\<close> the state after Pong then called
  \<open>Task_Sleep(3)\<close>. In \<open>demo_idle\<close> suspend_pong has called \<open>Task_Sleep(5)\<close> as well: no task
  is READY, the dispatcher spins, enables interrupts after five steps, and the second
  step after that takes a tick, which wakes Ping. \<open>demo_yield\<close> is \<open>demo_sleeping\<close> at the
  moment suspend_pong has yielded and \<open>Dispatch\<close> is called: it is the only READY slot.
\<close>

definition boot :: "nat \<Rightarrow> nat \<Rightarrow> kernel" where
  "boot m w = \<lparr>Process = replicate m (zero_PD w), Cp = 0, CurrentSp = NULL, NextP = 0,
     KernelActive = False, Tasks = 0, last_PID = 0, err = NO_ERR, Interrupts = False\<rparr>"

definition demo_init :: kernel where
  "demo_init = OS_Init (boot 4 48)"

definition demo_ping :: kernel where
  "demo_ping = snd (the (Task_Create 0x0456 [] NULL 0x0123 10 210 demo_init))"

definition demo_pong :: kernel where
  "demo_pong = snd (the (Task_Create 0x0456 [] NULL 0x0234 10 205 demo_ping))"

definition demo_created :: kernel where
  "demo_created = snd (the (Task_Create 0x0456 [] NULL 0x0345 10 0 demo_pong))"

definition demo_started :: kernel where
  "demo_started = the (OS_Start [] demo_created)"

definition demo_ping_asleep :: kernel where
  "demo_ping_asleep =
     the (Kernel_Iteration 0x0456 [] (WorkSpace_ptr 0 5) (Task_call (Call_Sleep 1) demo_started))"

definition demo_sleeping :: kernel where
  "demo_sleeping =
     the (Kernel_Iteration 0x0456 [] (WorkSpace_ptr 1 5)
            (Task_call (Call_Sleep 3) demo_ping_asleep))"

definition demo_idle :: kernel where
  "demo_idle =
     the (Kernel_Iteration 0x0456 [False, True] (WorkSpace_ptr 2 5)
            (Task_call (Call_Sleep 5) demo_sleeping))"

definition demo_yield :: kernel where
  "demo_yield = upd_Cp (\<lambda>p. p\<lparr>state := READY\<rparr>) demo_sleeping"

text \<open>
  The second run uses a table of two slots. \<open>full_created\<close> is the state after two
  creations, which fill the table; \<open>full_started\<close> is the state in which the first task
  runs, \<open>full_terminated\<close> the state after that task called \<open>Task_Terminate\<close>: the second
  task runs and slot 0 is DEAD.
\<close>

definition full_created :: kernel where
  "full_created =
     snd (the (Task_Create 0x0456 [] NULL 0x0234 10 205
       (snd (the (Task_Create 0x0456 [] NULL 0x0123 10 210 (OS_Init (boot 2 48)))))))"

definition full_started :: kernel where
  "full_started = the (OS_Start [] full_created)"

definition full_terminated :: kernel where
  "full_terminated =
     the (Kernel_Iteration 0x0456 [] (WorkSpace_ptr 0 5) (Task_call Call_Terminate full_started))"

section \<open>Lookup by PID\<close>

lemma scan_pid_None: "scan_pid ps q = None \<longleftrightarrow> (\<forall>p\<in>set ps. pid p \<noteq> q)"
  by (induction ps) auto

lemma scan_pid_Some:
  "scan_pid ps q = Some i \<longleftrightarrow>
     i < length ps \<and> pid (ps ! i) = q \<and> (\<forall>j<i. pid (ps ! j) \<noteq> q)"
proof (induction ps arbitrary: i)
  case Nil
  then show ?case by simp
next
  case (Cons p ps)
  show ?case
  proof (cases "pid p = q")
    case True
    then show ?thesis by (cases i) auto
  next
    case False
    show ?thesis
    proof (cases i)
      case 0
      with False show ?thesis by auto
    next
      case (Suc k)
      have "(\<forall>j<Suc k. pid ((p # ps) ! j) \<noteq> q) \<longleftrightarrow> (\<forall>j<k. pid (ps ! j) \<noteq> q)"
        using False by (auto simp: less_Suc_eq_0_disj)
      with False Suc Cons.IH [of k] show ?thesis by auto
    qed
  qed
qed

lemma findProcessByPID_None:
  "findProcessByPID s q = None \<longleftrightarrow> (\<forall>p\<in>set (Process s). pid p \<noteq> q)"
  by (simp add: findProcessByPID_def scan_pid_None)

lemma findProcessByPID_Some:
  "findProcessByPID s q = Some i \<longleftrightarrow> first_with_pid s q i"
  by (simp add: findProcessByPID_def scan_pid_Some first_with_pid_def MAXTHREAD_def)

lemma scan_pid_cong: "map pid ps = map pid ps' \<Longrightarrow> scan_pid ps q = scan_pid ps' q"
proof (induction ps arbitrary: ps')
  case Nil then show ?case by simp
next
  case (Cons p ps)
  then obtain p' ps'' where "ps' = p' # ps''" by (cases ps') auto
  with Cons show ?case by auto
qed

lemma map_pid_state_update:
  "map pid (ps[i := (ps ! i)\<lparr>state := v\<rparr>]) = map pid ps"
  by (cases "i < length ps") (simp_all add: map_update list_update_same_conv list_update_beyond)

section \<open>Suspend\<close>

lemma Kernel_Suspend_Task_not_found:
  "\<forall>p\<in>set (Process s). pid p \<noteq> Cp_request_arg s \<Longrightarrow>
     Kernel_Suspend_Task s = s\<lparr>err := PID_NOT_FOUND_ERR\<rparr>"
  using findProcessByPID_None [of s "Cp_request_arg s"]
  by (simp add: Kernel_Suspend_Task_def Cp_request_arg_def)

lemma Kernel_Suspend_Task_not_READY:
  "first_with_pid s (Cp_request_arg s) i \<Longrightarrow> state (Process s ! i) \<noteq> READY \<Longrightarrow>
     Kernel_Suspend_Task s = s\<lparr>err := SUSPEND_NONRUNNING_TASK_ERR\<rparr>"
  using findProcessByPID_Some [of s "Cp_request_arg s" i]
  by (simp add: Kernel_Suspend_Task_def Cp_request_arg_def)

lemma Kernel_Suspend_Task_READY:
  "first_with_pid s (Cp_request_arg s) i \<Longrightarrow> state (Process s ! i) = READY \<Longrightarrow>
     Kernel_Suspend_Task s =
       s\<lparr>Process := (Process s)[i := (Process s ! i)\<lparr>state := SUSPENDED\<rparr>], err := NO_ERR\<rparr>"
  using findProcessByPID_Some [of s "Cp_request_arg s" i]
  by (simp add: Kernel_Suspend_Task_def Cp_request_arg_def)

lemma first_with_pid_state_update:
  "first_with_pid (s\<lparr>Process := (Process s)[i := (Process s ! i)\<lparr>state := v\<rparr>], err := e\<rparr>) q k
     = first_with_pid s q k"
proof -
  have "findProcessByPID (s\<lparr>Process := (Process s)[i := (Process s ! i)\<lparr>state := v\<rparr>], err := e\<rparr>) q
      = findProcessByPID s q"
    by (simp add: findProcessByPID_def scan_pid_cong [OF map_pid_state_update])
  then show ?thesis by (simp add: findProcessByPID_Some [symmetric])
qed

lemma Cp_request_arg_state_update:
  "Cp_request_arg (s\<lparr>Process := (Process s)[i := (Process s ! i)\<lparr>state := v\<rparr>], err := e\<rparr>)
     = Cp_request_arg s"
  by (cases "i = Cp s"; cases "i < length (Process s)")
     (simp_all add: Cp_request_arg_def list_update_beyond)

text \<open>
  C6. \<open>Kernel_Suspend_Task\<close> takes the target PID from \<open>Cp->request_arg\<close>. If no slot has
  that pid, it sets \<open>err\<close> to \<open>PID_NOT_FOUND_ERR\<close> and changes nothing else. If the slot
  the PID denotes is not READY, it sets \<open>err\<close> to \<open>SUSPEND_NONRUNNING_TASK_ERR\<close> and
  changes nothing else. If that slot is READY, its state becomes SUSPENDED, \<open>err\<close> becomes
  \<open>NO_ERR\<close>, and a second suspend of the same PID fails with
  \<open>SUSPEND_NONRUNNING_TASK_ERR\<close> and changes nothing else. The running task stays
  RUNNING: when the PID denotes the caller's own slot the call fails with
  \<open>SUSPEND_NONRUNNING_TASK_ERR\<close>.
\<close>

theorem Kernel_Suspend_Task_cases:
  "((\<forall>p\<in>set (Process s). pid p \<noteq> Cp_request_arg s) \<longrightarrow>
      Kernel_Suspend_Task s = s\<lparr>err := PID_NOT_FOUND_ERR\<rparr>)
   \<and> (\<forall>i. first_with_pid s (Cp_request_arg s) i \<and> state (Process s ! i) \<noteq> READY \<longrightarrow>
      Kernel_Suspend_Task s = s\<lparr>err := SUSPEND_NONRUNNING_TASK_ERR\<rparr>)
   \<and> (\<forall>i. first_with_pid s (Cp_request_arg s) i \<and> state (Process s ! i) = READY \<longrightarrow>
      Kernel_Suspend_Task s =
        s\<lparr>Process := (Process s)[i := (Process s ! i)\<lparr>state := SUSPENDED\<rparr>], err := NO_ERR\<rparr>
      \<and> Kernel_Suspend_Task (Kernel_Suspend_Task s) =
        (Kernel_Suspend_Task s)\<lparr>err := SUSPEND_NONRUNNING_TASK_ERR\<rparr>)
   \<and> (Cp s < MAXTHREAD s \<and> state (Process s ! Cp s) = RUNNING \<longrightarrow>
      state (Process (Kernel_Suspend_Task s) ! Cp s) = RUNNING
      \<and> (first_with_pid s (Cp_request_arg s) (Cp s) \<longrightarrow>
           Kernel_Suspend_Task s = s\<lparr>err := SUSPEND_NONRUNNING_TASK_ERR\<rparr>))"
proof (intro conjI allI impI)
  assume "\<forall>p\<in>set (Process s). pid p \<noteq> Cp_request_arg s"
  then show "Kernel_Suspend_Task s = s\<lparr>err := PID_NOT_FOUND_ERR\<rparr>"
    by (rule Kernel_Suspend_Task_not_found)
next
  fix i
  assume "first_with_pid s (Cp_request_arg s) i \<and> state (Process s ! i) \<noteq> READY"
  then show "Kernel_Suspend_Task s = s\<lparr>err := SUSPEND_NONRUNNING_TASK_ERR\<rparr>"
    by (blast intro: Kernel_Suspend_Task_not_READY)
next
  fix i
  assume a: "first_with_pid s (Cp_request_arg s) i \<and> state (Process s ! i) = READY"
  then show first: "Kernel_Suspend_Task s =
      s\<lparr>Process := (Process s)[i := (Process s ! i)\<lparr>state := SUSPENDED\<rparr>], err := NO_ERR\<rparr>"
    by (blast intro: Kernel_Suspend_Task_READY)
  let ?s1 = "s\<lparr>Process := (Process s)[i := (Process s ! i)\<lparr>state := SUSPENDED\<rparr>], err := NO_ERR\<rparr>"
  from a have i: "i < length (Process s)"
    by (simp add: first_with_pid_def MAXTHREAD_def)
  have "first_with_pid ?s1 (Cp_request_arg ?s1) i"
    using a by (simp only: first_with_pid_state_update Cp_request_arg_state_update)
  moreover have "state (Process ?s1 ! i) \<noteq> READY"
    using i by simp
  ultimately have "Kernel_Suspend_Task ?s1 = ?s1\<lparr>err := SUSPEND_NONRUNNING_TASK_ERR\<rparr>"
    by (rule Kernel_Suspend_Task_not_READY)
  with first show "Kernel_Suspend_Task (Kernel_Suspend_Task s) =
      (Kernel_Suspend_Task s)\<lparr>err := SUSPEND_NONRUNNING_TASK_ERR\<rparr>"
    by simp
next
  assume a: "Cp s < MAXTHREAD s \<and> state (Process s ! Cp s) = RUNNING"
  show "state (Process (Kernel_Suspend_Task s) ! Cp s) = RUNNING"
  proof (cases "findProcessByPID s (Cp_request_arg s)")
    case None
    with a show ?thesis
      by (simp add: Kernel_Suspend_Task_def Cp_request_arg_def)
  next
    case (Some i)
    with a show ?thesis
      by (cases "i = Cp s")
         (auto simp add: Kernel_Suspend_Task_def Cp_request_arg_def MAXTHREAD_def)
  qed
next
  assume a: "Cp s < MAXTHREAD s \<and> state (Process s ! Cp s) = RUNNING"
    and b: "first_with_pid s (Cp_request_arg s) (Cp s)"
  from a have "state (Process s ! Cp s) \<noteq> READY" by simp
  with b show "Kernel_Suspend_Task s = s\<lparr>err := SUSPEND_NONRUNNING_TASK_ERR\<rparr>"
    by (rule Kernel_Suspend_Task_not_READY)
qed

theorem Kernel_Suspend_Task_cases_witness:
  "Kernel_Suspend_Task (Task_Suspend 9 demo_started)
     = (Task_Suspend 9 demo_started)\<lparr>err := PID_NOT_FOUND_ERR\<rparr>
   \<and> Kernel_Suspend_Task (Task_Suspend 0 demo_started)
     = (Task_Suspend 0 demo_started)\<lparr>err := SUSPEND_NONRUNNING_TASK_ERR\<rparr>
   \<and> Kernel_Suspend_Task (Task_Suspend 2 demo_started)
     = (Task_Suspend 2 demo_started)
         \<lparr>Process := (Process (Task_Suspend 2 demo_started))
            [1 := (Process (Task_Suspend 2 demo_started) ! 1)\<lparr>state := SUSPENDED\<rparr>],
          err := NO_ERR\<rparr>
   \<and> Kernel_Suspend_Task (Kernel_Suspend_Task (Task_Suspend 2 demo_started))
     = (Kernel_Suspend_Task (Task_Suspend 2 demo_started))\<lparr>err := SUSPEND_NONRUNNING_TASK_ERR\<rparr>
   \<and> state (Process (Kernel_Suspend_Task (Task_Suspend 1 demo_started))
        ! Cp (Task_Suspend 1 demo_started)) = RUNNING
   \<and> Kernel_Suspend_Task (Task_Suspend 1 demo_started)
     = (Task_Suspend 1 demo_started)\<lparr>err := SUSPEND_NONRUNNING_TASK_ERR\<rparr>"
proof -
  let ?a = "Task_Suspend 9 demo_started"
  let ?b = "Task_Suspend 0 demo_started"
  let ?c = "Task_Suspend 2 demo_started"
  let ?d = "Task_Suspend 1 demo_started"
  have a: "\<forall>p\<in>set (Process ?a). pid p \<noteq> Cp_request_arg ?a"
    by code_simp
  have b: "first_with_pid ?b (Cp_request_arg ?b) 3 \<and> state (Process ?b ! 3) \<noteq> READY"
    by code_simp
  have c: "first_with_pid ?c (Cp_request_arg ?c) 1 \<and> state (Process ?c ! 1) = READY"
    by code_simp
  have d: "Cp ?d < MAXTHREAD ?d \<and> state (Process ?d ! Cp ?d) = RUNNING"
    "first_with_pid ?d (Cp_request_arg ?d) (Cp ?d)"
    by code_simp+
  from Kernel_Suspend_Task_cases [of ?a] a
  have "Kernel_Suspend_Task ?a = ?a\<lparr>err := PID_NOT_FOUND_ERR\<rparr>" by blast
  moreover from Kernel_Suspend_Task_cases [of ?b] b
  have "Kernel_Suspend_Task ?b = ?b\<lparr>err := SUSPEND_NONRUNNING_TASK_ERR\<rparr>" by blast
  moreover from Kernel_Suspend_Task_cases [of ?c] c
  have "Kernel_Suspend_Task ?c =
        ?c\<lparr>Process := (Process ?c)[1 := (Process ?c ! 1)\<lparr>state := SUSPENDED\<rparr>], err := NO_ERR\<rparr>
      \<and> Kernel_Suspend_Task (Kernel_Suspend_Task ?c) =
        (Kernel_Suspend_Task ?c)\<lparr>err := SUSPEND_NONRUNNING_TASK_ERR\<rparr>" by blast
  moreover from Kernel_Suspend_Task_cases [of ?d] d
  have "state (Process (Kernel_Suspend_Task ?d) ! Cp ?d) = RUNNING
      \<and> Kernel_Suspend_Task ?d = ?d\<lparr>err := SUSPEND_NONRUNNING_TASK_ERR\<rparr>" by blast
  ultimately show ?thesis by blast
qed

section \<open>Resume\<close>

lemma Kernel_Resume_Task_not_found:
  "\<forall>p\<in>set (Process s). pid p \<noteq> Cp_request_arg s \<Longrightarrow>
     Kernel_Resume_Task s = s\<lparr>err := PID_NOT_FOUND_ERR\<rparr>"
  using findProcessByPID_None [of s "Cp_request_arg s"]
  by (simp add: Kernel_Resume_Task_def Cp_request_arg_def)

lemma Kernel_Resume_Task_not_SUSPENDED:
  "first_with_pid s (Cp_request_arg s) i \<Longrightarrow> state (Process s ! i) \<noteq> SUSPENDED \<Longrightarrow>
     Kernel_Resume_Task s = s\<lparr>err := RESUME_NONSUSPENDED_TASK_ERR\<rparr>"
  using findProcessByPID_Some [of s "Cp_request_arg s" i]
  by (simp add: Kernel_Resume_Task_def Cp_request_arg_def)

lemma Kernel_Resume_Task_SUSPENDED:
  "first_with_pid s (Cp_request_arg s) i \<Longrightarrow> state (Process s ! i) = SUSPENDED \<Longrightarrow>
     Kernel_Resume_Task s =
       s\<lparr>Process := (Process s)[i := (Process s ! i)\<lparr>state := READY\<rparr>], err := NO_ERR\<rparr>"
  using findProcessByPID_Some [of s "Cp_request_arg s" i]
  by (simp add: Kernel_Resume_Task_def Cp_request_arg_def)

text \<open>
  C7. When the PID in \<open>Cp->request_arg\<close> denotes a READY slot, \<open>Kernel_Suspend_Task\<close>
  followed by \<open>Kernel_Resume_Task\<close> gives back the state it started from, with the
  task READY again and \<open>err = NO_ERR\<close>. \<open>Kernel_Resume_Task\<close> sets
  \<open>PID_NOT_FOUND_ERR\<close> when no slot has the pid and \<open>RESUME_NONSUSPENDED_TASK_ERR\<close> when
  the slot is not SUSPENDED, and in both cases changes nothing but \<open>err\<close>; on a SUSPENDED
  slot it sets the state to READY and \<open>err\<close> to \<open>NO_ERR\<close>.
\<close>

theorem Suspend_then_Resume:
  "(\<forall>i. first_with_pid s (Cp_request_arg s) i \<and> state (Process s ! i) = READY \<longrightarrow>
      Kernel_Resume_Task (Kernel_Suspend_Task s) = s\<lparr>err := NO_ERR\<rparr>)
   \<and> ((\<forall>p\<in>set (Process s). pid p \<noteq> Cp_request_arg s) \<longrightarrow>
      Kernel_Resume_Task s = s\<lparr>err := PID_NOT_FOUND_ERR\<rparr>)
   \<and> (\<forall>i. first_with_pid s (Cp_request_arg s) i \<and> state (Process s ! i) \<noteq> SUSPENDED \<longrightarrow>
      Kernel_Resume_Task s = s\<lparr>err := RESUME_NONSUSPENDED_TASK_ERR\<rparr>)
   \<and> (\<forall>i. first_with_pid s (Cp_request_arg s) i \<and> state (Process s ! i) = SUSPENDED \<longrightarrow>
      Kernel_Resume_Task s =
        s\<lparr>Process := (Process s)[i := (Process s ! i)\<lparr>state := READY\<rparr>], err := NO_ERR\<rparr>)"
proof (intro conjI allI impI)
  fix i
  assume a: "first_with_pid s (Cp_request_arg s) i \<and> state (Process s ! i) = READY"
  let ?s1 = "s\<lparr>Process := (Process s)[i := (Process s ! i)\<lparr>state := SUSPENDED\<rparr>], err := NO_ERR\<rparr>"
  from a have i: "i < length (Process s)"
    by (simp add: first_with_pid_def MAXTHREAD_def)
  from a have first: "Kernel_Suspend_Task s = ?s1"
    by (blast intro: Kernel_Suspend_Task_READY)
  have "first_with_pid ?s1 (Cp_request_arg ?s1) i"
    using a by (simp only: first_with_pid_state_update Cp_request_arg_state_update)
  moreover have "state (Process ?s1 ! i) = SUSPENDED"
    using i by simp
  ultimately have "Kernel_Resume_Task ?s1 =
      ?s1\<lparr>Process := (Process ?s1)[i := (Process ?s1 ! i)\<lparr>state := READY\<rparr>], err := NO_ERR\<rparr>"
    by (rule Kernel_Resume_Task_SUSPENDED)
  also have "\<dots> = s\<lparr>Process := (Process s)[i := (Process s ! i)\<lparr>state := READY\<rparr>], err := NO_ERR\<rparr>"
    using i by simp
  also have "(Process s ! i)\<lparr>state := READY\<rparr> = Process s ! i"
    using a by simp
  finally show "Kernel_Resume_Task (Kernel_Suspend_Task s) = s\<lparr>err := NO_ERR\<rparr>"
    using first by simp
next
  assume "\<forall>p\<in>set (Process s). pid p \<noteq> Cp_request_arg s"
  then show "Kernel_Resume_Task s = s\<lparr>err := PID_NOT_FOUND_ERR\<rparr>"
    by (rule Kernel_Resume_Task_not_found)
next
  fix i
  assume "first_with_pid s (Cp_request_arg s) i \<and> state (Process s ! i) \<noteq> SUSPENDED"
  then show "Kernel_Resume_Task s = s\<lparr>err := RESUME_NONSUSPENDED_TASK_ERR\<rparr>"
    by (blast intro: Kernel_Resume_Task_not_SUSPENDED)
next
  fix i
  assume "first_with_pid s (Cp_request_arg s) i \<and> state (Process s ! i) = SUSPENDED"
  then show "Kernel_Resume_Task s =
      s\<lparr>Process := (Process s)[i := (Process s ! i)\<lparr>state := READY\<rparr>], err := NO_ERR\<rparr>"
    by (blast intro: Kernel_Resume_Task_SUSPENDED)
qed

theorem Suspend_then_Resume_witness:
  "Kernel_Resume_Task (Kernel_Suspend_Task (Task_Suspend 2 demo_started))
     = (Task_Suspend 2 demo_started)\<lparr>err := NO_ERR\<rparr>
   \<and> Kernel_Resume_Task (Task_Resume 9 demo_started)
     = (Task_Resume 9 demo_started)\<lparr>err := PID_NOT_FOUND_ERR\<rparr>
   \<and> Kernel_Resume_Task (Task_Resume 2 demo_started)
     = (Task_Resume 2 demo_started)\<lparr>err := RESUME_NONSUSPENDED_TASK_ERR\<rparr>
   \<and> Kernel_Resume_Task (Task_Resume 2 (Kernel_Suspend_Task (Task_Suspend 2 demo_started)))
     = (Task_Resume 2 (Kernel_Suspend_Task (Task_Suspend 2 demo_started)))
         \<lparr>Process := (Process (Task_Resume 2 (Kernel_Suspend_Task (Task_Suspend 2 demo_started))))
            [1 := (Process (Task_Resume 2 (Kernel_Suspend_Task (Task_Suspend 2 demo_started))) ! 1)
                    \<lparr>state := READY\<rparr>],
          err := NO_ERR\<rparr>"
proof -
  let ?a = "Task_Suspend 2 demo_started"
  let ?b = "Task_Resume 9 demo_started"
  let ?c = "Task_Resume 2 demo_started"
  let ?d = "Task_Resume 2 (Kernel_Suspend_Task (Task_Suspend 2 demo_started))"
  have a: "first_with_pid ?a (Cp_request_arg ?a) 1 \<and> state (Process ?a ! 1) = READY"
    by code_simp
  have b: "\<forall>p\<in>set (Process ?b). pid p \<noteq> Cp_request_arg ?b"
    by code_simp
  have c: "first_with_pid ?c (Cp_request_arg ?c) 1 \<and> state (Process ?c ! 1) \<noteq> SUSPENDED"
    by code_simp
  have d: "first_with_pid ?d (Cp_request_arg ?d) 1 \<and> state (Process ?d ! 1) = SUSPENDED"
    by code_simp
  from Suspend_then_Resume [of ?a] a
  have "Kernel_Resume_Task (Kernel_Suspend_Task ?a) = ?a\<lparr>err := NO_ERR\<rparr>" by blast
  moreover from Suspend_then_Resume [of ?b] b
  have "Kernel_Resume_Task ?b = ?b\<lparr>err := PID_NOT_FOUND_ERR\<rparr>" by blast
  moreover from Suspend_then_Resume [of ?c] c
  have "Kernel_Resume_Task ?c = ?c\<lparr>err := RESUME_NONSUSPENDED_TASK_ERR\<rparr>" by blast
  moreover from Suspend_then_Resume [of ?d] d
  have "Kernel_Resume_Task ?d =
      ?d\<lparr>Process := (Process ?d)[1 := (Process ?d ! 1)\<lparr>state := READY\<rparr>], err := NO_ERR\<rparr>"
    by blast
  ultimately show ?thesis by blast
qed

section \<open>The tick interrupt routine\<close>

lemma tick_PD_SLEEPING:
  "state p = SLEEPING \<Longrightarrow>
     tick_PD p = p\<lparr>request_arg := request_arg p - 1,
                   state := (if sint (request_arg p - 1) \<le> 0 then READY else SLEEPING)\<rparr>"
  by (simp add: tick_PD_def Let_def)

lemma tick_PD_other: "state p \<noteq> SLEEPING \<Longrightarrow> tick_PD p = p"
  by (simp add: tick_PD_def)

text \<open>
  C8. One run of the tick interrupt routine keeps the size of the table and every
  global but the table; in every SLEEPING slot it decrements \<open>request_arg\<close> and sets the
  state to READY exactly when the decremented value, read as a signed 16-bit number, is at
  most zero; every other slot keeps all its fields. A slot that sleeps with
  \<open>request_arg = 1\<close> is READY after one run.
\<close>

theorem ISR_effect:
  "MAXTHREAD (ISR s) = MAXTHREAD s
   \<and> ISR s = s\<lparr>Process := Process (ISR s)\<rparr>
   \<and> (\<forall>i<MAXTHREAD s.
        (state (Process s ! i) = SLEEPING \<longrightarrow>
           Process (ISR s) ! i =
             (Process s ! i)\<lparr>request_arg := request_arg (Process s ! i) - 1,
                state := (if sint (request_arg (Process s ! i) - 1) \<le> 0 then READY
                          else SLEEPING)\<rparr>)
        \<and> (state (Process s ! i) \<noteq> SLEEPING \<longrightarrow> Process (ISR s) ! i = Process s ! i)
        \<and> (state (Process s ! i) = SLEEPING \<and> request_arg (Process s ! i) = 1 \<longrightarrow>
             state (Process (ISR s) ! i) = READY))"
proof (intro conjI allI impI)
  show "MAXTHREAD (ISR s) = MAXTHREAD s"
    by (simp add: ISR_def MAXTHREAD_def)
  show "ISR s = s\<lparr>Process := Process (ISR s)\<rparr>"
    by (simp add: ISR_def)
next
  fix i
  assume i: "i < MAXTHREAD s" and sl: "state (Process s ! i) = SLEEPING"
  from i have "Process (ISR s) ! i = tick_PD (Process s ! i)"
    by (simp add: ISR_def MAXTHREAD_def)
  with sl show "Process (ISR s) ! i =
      (Process s ! i)\<lparr>request_arg := request_arg (Process s ! i) - 1,
         state := (if sint (request_arg (Process s ! i) - 1) \<le> 0 then READY else SLEEPING)\<rparr>"
    by (simp add: tick_PD_SLEEPING)
next
  fix i
  assume i: "i < MAXTHREAD s" and sl: "state (Process s ! i) \<noteq> SLEEPING"
  from i have "Process (ISR s) ! i = tick_PD (Process s ! i)"
    by (simp add: ISR_def MAXTHREAD_def)
  with sl show "Process (ISR s) ! i = Process s ! i"
    by (simp add: tick_PD_other)
next
  fix i
  assume i: "i < MAXTHREAD s"
    and sl: "state (Process s ! i) = SLEEPING \<and> request_arg (Process s ! i) = 1"
  from i have "Process (ISR s) ! i = tick_PD (Process s ! i)"
    by (simp add: ISR_def MAXTHREAD_def)
  with sl show "state (Process (ISR s) ! i) = READY"
    by (simp add: tick_PD_SLEEPING)
qed

theorem ISR_effect_witness:
  "state (Process demo_sleeping ! 0) = SLEEPING \<and> request_arg (Process demo_sleeping ! 0) = 1
   \<and> state (Process (ISR demo_sleeping) ! 0) = READY
   \<and> state (Process demo_sleeping ! 1) = SLEEPING
   \<and> Process (ISR demo_sleeping) ! 1 =
       (Process demo_sleeping ! 1)\<lparr>request_arg := request_arg (Process demo_sleeping ! 1) - 1,
          state := (if sint (request_arg (Process demo_sleeping ! 1) - 1) \<le> 0 then READY
                    else SLEEPING)\<rparr>
   \<and> state (Process (ISR demo_sleeping) ! 1) = SLEEPING
   \<and> state (Process demo_sleeping ! 2) \<noteq> SLEEPING
   \<and> Process (ISR demo_sleeping) ! 2 = Process demo_sleeping ! 2"
proof -
  have m: "0 < MAXTHREAD demo_sleeping" "1 < MAXTHREAD demo_sleeping"
    "2 < MAXTHREAD demo_sleeping"
    by code_simp+
  have a: "state (Process demo_sleeping ! 0) = SLEEPING \<and> request_arg (Process demo_sleeping ! 0) = 1"
    by code_simp
  have b: "state (Process demo_sleeping ! 1) = SLEEPING"
    by code_simp
  have b': "sint (request_arg (Process demo_sleeping ! 1) - 1) = 2"
    by code_simp
  have c: "state (Process demo_sleeping ! 2) \<noteq> SLEEPING"
    by code_simp
  from ISR_effect [of demo_sleeping] m(1) a
  have "state (Process (ISR demo_sleeping) ! 0) = READY" by blast
  moreover from ISR_effect [of demo_sleeping] m(2) b
  have b2: "Process (ISR demo_sleeping) ! 1 =
       (Process demo_sleeping ! 1)\<lparr>request_arg := request_arg (Process demo_sleeping ! 1) - 1,
          state := (if sint (request_arg (Process demo_sleeping ! 1) - 1) \<le> 0 then READY
                    else SLEEPING)\<rparr>" by blast
  moreover from b2 b' have "state (Process (ISR demo_sleeping) ! 1) = SLEEPING" by simp
  moreover from ISR_effect [of demo_sleeping] m(3) c
  have "Process (ISR demo_sleeping) ! 2 = Process demo_sleeping ! 2" by blast
  ultimately show ?thesis using a b c by blast
qed

section \<open>The dispatcher selects round-robin\<close>

lemma Dispatch_loop_found:
  "\<not> Interrupts s \<Longrightarrow> NextP s < MAXTHREAD s \<Longrightarrow> i + d \<le> MAXTHREAD s \<Longrightarrow>
   \<forall>j<d. state (Process s ! ((NextP s + j) mod MAXTHREAD s)) \<noteq> READY \<Longrightarrow>
   state (Process s ! ((NextP s + d) mod MAXTHREAD s)) = READY \<Longrightarrow>
   Dispatch_loop ticks i s = Some (s\<lparr>NextP := (NextP s + d) mod MAXTHREAD s\<rparr>)"
proof (induction d arbitrary: s i)
  case 0
  then show ?case
    by (subst Dispatch_loop.simps) simp
next
  case (Suc d)
  let ?M = "MAXTHREAD s"
  let ?s1 = "s\<lparr>NextP := (NextP s + 1) mod ?M\<rparr>"
  from Suc.prems(4) have here: "state (Process s ! NextP s) \<noteq> READY"
    using Suc.prems(2) by (auto dest: spec [of _ 0])
  have M: "MAXTHREAD ?s1 = ?M"
    by (simp add: MAXTHREAD_def)
  have step: "Dispatch_loop ticks i s = Dispatch_loop ticks (i + 1) ?s1"
    using here Suc.prems(1,3)
    by (subst Dispatch_loop.simps) (simp add: Let_def)
  have idx: "\<And>j. (NextP ?s1 + j) mod ?M = (NextP s + Suc j) mod ?M"
    by (simp add: mod_add_left_eq)
  have "Dispatch_loop ticks (i + 1) ?s1 =
      Some (?s1\<lparr>NextP := (NextP ?s1 + d) mod MAXTHREAD ?s1\<rparr>)"
  proof (rule Suc.IH)
    show "\<not> Interrupts ?s1" using Suc.prems(1) by simp
    from Suc.prems(2) have "0 < length (Process s)" by (auto simp: MAXTHREAD_def)
    then show "NextP ?s1 < MAXTHREAD ?s1" by (simp add: MAXTHREAD_def)
    show "i + 1 + d \<le> MAXTHREAD ?s1" using Suc.prems(3) by (simp add: MAXTHREAD_def)
    show "\<forall>j<d. state (Process ?s1 ! ((NextP ?s1 + j) mod MAXTHREAD ?s1)) \<noteq> READY"
      using Suc.prems(4) by (simp only: M idx) auto
    show "state (Process ?s1 ! ((NextP ?s1 + d) mod MAXTHREAD ?s1)) = READY"
      using Suc.prems(5) by (simp only: M idx) simp
  qed
  with step show ?case
    by (simp only: M idx) simp
qed

lemma first_READY_exists:
  assumes n: "NextP s < MAXTHREAD s" and r: "\<exists>i<MAXTHREAD s. state (Process s ! i) = READY"
  shows "\<exists>k. first_READY_after_NextP s k"
proof -
  let ?M = "MAXTHREAD s"
  let ?P = "\<lambda>d. d < ?M \<and> state (Process s ! ((NextP s + d) mod ?M)) = READY"
  from r obtain i where i: "i < ?M" "state (Process s ! i) = READY" by blast
  have "(NextP s + (i + ?M - NextP s) mod ?M) mod ?M = i"
  proof -
    have "(NextP s + (i + ?M - NextP s) mod ?M) mod ?M = (NextP s + (i + ?M - NextP s)) mod ?M"
      by (simp add: mod_add_right_eq)
    also have "NextP s + (i + ?M - NextP s) = i + ?M" using n by simp
    finally show ?thesis using i(1) by simp
  qed
  with i have "?P ((i + ?M - NextP s) mod ?M)" by simp
  then have L: "?P (LEAST d. ?P d)" by (rule LeastI)
  have "\<forall>j<(LEAST d. ?P d). state (Process s ! ((NextP s + j) mod ?M)) \<noteq> READY"
  proof (intro allI impI)
    fix j assume j: "j < (LEAST d. ?P d)"
    then have "\<not> ?P j" by (rule not_less_Least)
    moreover from j L have "j < ?M" by simp
    ultimately show "state (Process s ! ((NextP s + j) mod ?M)) \<noteq> READY" by simp
  qed
  with L show ?thesis
    unfolding first_READY_after_NextP_def by blast
qed

lemma Dispatch_first_READY:
  assumes n: "NextP s < MAXTHREAD s" and i: "\<not> Interrupts s"
    and k: "first_READY_after_NextP s k"
  shows "Dispatch ticks s =
     Some (s\<lparr>Interrupts := False, Cp := k, CurrentSp := sp (Process s ! k),
            Process := (Process s)[k := (Process s ! k)\<lparr>state := RUNNING\<rparr>],
            NextP := (k + 1) mod MAXTHREAD s\<rparr>)"
proof -
  from k obtain d where d: "d < MAXTHREAD s" "k = (NextP s + d) mod MAXTHREAD s"
    "state (Process s ! k) = READY"
    "\<forall>j<d. state (Process s ! ((NextP s + j) mod MAXTHREAD s)) \<noteq> READY"
    unfolding first_READY_after_NextP_def by blast
  have "Dispatch_loop ticks 0 s = Some (s\<lparr>NextP := (NextP s + d) mod MAXTHREAD s\<rparr>)"
    using i n d by (intro Dispatch_loop_found) simp_all
  then show ?thesis
    using d(2) by (simp add: Dispatch_def Dispatch_select_def Disable_Interrupt_def
        upd_Cp_def MAXTHREAD_def Let_def)
qed

lemma first_READY_unique:
  "first_READY_after_NextP s k \<Longrightarrow> first_READY_after_NextP s k' \<Longrightarrow> k = k'"
proof -
  assume a: "first_READY_after_NextP s k" and b: "first_READY_after_NextP s k'"
  from a obtain d where d: "k = (NextP s + d) mod MAXTHREAD s"
    "state (Process s ! k) = READY"
    "\<forall>j<d. state (Process s ! ((NextP s + j) mod MAXTHREAD s)) \<noteq> READY"
    unfolding first_READY_after_NextP_def by blast
  from b obtain d' where d': "k' = (NextP s + d') mod MAXTHREAD s"
    "state (Process s ! k') = READY"
    "\<forall>j<d'. state (Process s ! ((NextP s + j) mod MAXTHREAD s)) \<noteq> READY"
    unfolding first_READY_after_NextP_def by blast
  have "\<not> d < d'" using d(1,2) d'(3) by auto
  moreover have "\<not> d' < d" using d'(1,2) d(3) by auto
  ultimately have "d = d'" by simp
  with d(1) d'(1) show ?thesis by simp
qed

lemma first_READY_range:
  "first_READY_after_NextP s k \<Longrightarrow> k < MAXTHREAD s \<and> state (Process s ! k) = READY"
  unfolding first_READY_after_NextP_def by auto

lemma Process_with_pri:
  "i < MAXTHREAD s \<Longrightarrow> Process (with_pri g s) ! i = (Process s ! i)\<lparr>pri := g i\<rparr>"
  by (simp add: with_pri_def MAXTHREAD_def nth_enumerate_eq)

lemma first_READY_with_pri:
  "first_READY_after_NextP (with_pri g s) k = first_READY_after_NextP s k"
proof -
  have M: "MAXTHREAD (with_pri g s) = MAXTHREAD s"
    by (simp add: with_pri_def MAXTHREAD_def)
  have N: "NextP (with_pri g s) = NextP s"
    by (simp add: with_pri_def)
  have st: "\<And>i. i < MAXTHREAD s \<Longrightarrow> state (Process (with_pri g s) ! i) = state (Process s ! i)"
    by (simp add: Process_with_pri)
  show ?thesis
  proof (cases "MAXTHREAD s = 0")
    case True
    then show ?thesis by (simp add: first_READY_after_NextP_def M)
  next
    case False
    then have "\<And>x. x mod MAXTHREAD s < MAXTHREAD s" by simp
    then show ?thesis
      by (auto simp: first_READY_after_NextP_def M N st)
  qed
qed

lemma with_pri_select:
  assumes k: "k < MAXTHREAD s"
  shows "with_pri g (s\<lparr>Interrupts := False, Cp := k, CurrentSp := sp (Process s ! k),
            Process := (Process s)[k := (Process s ! k)\<lparr>state := RUNNING\<rparr>],
            NextP := (k + 1) mod MAXTHREAD s\<rparr>)
       = (with_pri g s)\<lparr>Interrupts := False, Cp := k,
            CurrentSp := sp (Process (with_pri g s) ! k),
            Process := (Process (with_pri g s))
               [k := (Process (with_pri g s) ! k)\<lparr>state := RUNNING\<rparr>],
            NextP := (k + 1) mod MAXTHREAD (with_pri g s)\<rparr>"
proof -
  have M: "MAXTHREAD (with_pri g s) = MAXTHREAD s"
    by (simp add: with_pri_def MAXTHREAD_def)
  have "map (\<lambda>(i, p). p\<lparr>pri := g i\<rparr>)
          (enumerate 0 ((Process s)[k := (Process s ! k)\<lparr>state := RUNNING\<rparr>]))
      = (map (\<lambda>(i, p). p\<lparr>pri := g i\<rparr>) (enumerate 0 (Process s)))
          [k := (Process (with_pri g s) ! k)\<lparr>state := RUNNING\<rparr>]"
    using k
    by (intro nth_equalityI)
       (auto simp: MAXTHREAD_def nth_enumerate_eq nth_list_update Process_with_pri)
  then show ?thesis
    using k by (simp add: with_pri_def MAXTHREAD_def nth_enumerate_eq)
qed

text \<open>
  C3. In a kernel state (interrupts disabled, \<open>NextP\<close> inside the table) with at least
  one READY slot, \<open>Dispatch\<close> returns, whatever the timer does: it selects the first
  READY slot \<open>k\<close> at or cyclically after \<open>NextP\<close>, sets \<open>Cp\<close> to it, copies its \<open>sp\<close> into
  \<open>CurrentSp\<close>, sets its state to RUNNING, leaves \<open>NextP\<close> at \<open>(k + 1) mod MAXTHREAD\<close> and
  changes nothing else. If one slot only is READY, that slot is selected. The stored
  priorities are not consulted: replacing them before the call or after it gives the
  same state.
\<close>

theorem Dispatch_round_robin:
  assumes "NextP s < MAXTHREAD s" and "\<not> Interrupts s"
    and "\<exists>i<MAXTHREAD s. state (Process s ! i) = READY"
  shows "\<exists>k. first_READY_after_NextP s k
     \<and> Dispatch ticks s =
         Some (s\<lparr>Interrupts := False, Cp := k, CurrentSp := sp (Process s ! k),
                Process := (Process s)[k := (Process s ! k)\<lparr>state := RUNNING\<rparr>],
                NextP := (k + 1) mod MAXTHREAD s\<rparr>)
     \<and> (\<forall>k0. (\<forall>j<MAXTHREAD s. state (Process s ! j) = READY \<longrightarrow> j = k0) \<longrightarrow> k = k0)
     \<and> (\<forall>g. Dispatch ticks (with_pri g s) = map_option (with_pri g) (Dispatch ticks s))"
proof -
  from assms(1,3) obtain k where k: "first_READY_after_NextP s k"
    using first_READY_exists by blast
  have D: "Dispatch ticks s =
         Some (s\<lparr>Interrupts := False, Cp := k, CurrentSp := sp (Process s ! k),
                Process := (Process s)[k := (Process s ! k)\<lparr>state := RUNNING\<rparr>],
                NextP := (k + 1) mod MAXTHREAD s\<rparr>)"
    using assms(1,2) k by (rule Dispatch_first_READY)
  have only: "\<forall>k0. (\<forall>j<MAXTHREAD s. state (Process s ! j) = READY \<longrightarrow> j = k0) \<longrightarrow> k = k0"
    using first_READY_range [OF k] by blast
  have pri: "\<forall>g. Dispatch ticks (with_pri g s) = map_option (with_pri g) (Dispatch ticks s)"
  proof
    fix g
    have "NextP (with_pri g s) < MAXTHREAD (with_pri g s)" "\<not> Interrupts (with_pri g s)"
      using assms(1,2) by (simp_all add: with_pri_def MAXTHREAD_def)
    moreover have "first_READY_after_NextP (with_pri g s) k"
      using k by (simp add: first_READY_with_pri)
    ultimately have "Dispatch ticks (with_pri g s) =
        Some ((with_pri g s)\<lparr>Interrupts := False, Cp := k,
            CurrentSp := sp (Process (with_pri g s) ! k),
            Process := (Process (with_pri g s))
               [k := (Process (with_pri g s) ! k)\<lparr>state := RUNNING\<rparr>],
            NextP := (k + 1) mod MAXTHREAD (with_pri g s)\<rparr>)"
      by (rule Dispatch_first_READY)
    then show "Dispatch ticks (with_pri g s) = map_option (with_pri g) (Dispatch ticks s)"
      using D with_pri_select [of k s g] first_READY_range [OF k] by simp
  qed
  from k D only pri show ?thesis by blast
qed

theorem Dispatch_round_robin_witness:
  "NextP demo_yield = 3 \<and> NextP demo_yield < MAXTHREAD demo_yield \<and> \<not> Interrupts demo_yield
   \<and> (\<exists>i<MAXTHREAD demo_yield. state (Process demo_yield ! i) = READY)
   \<and> first_READY_after_NextP demo_yield 2
   \<and> Dispatch [] demo_yield =
       Some (demo_yield\<lparr>Interrupts := False, Cp := 2,
               CurrentSp := sp (Process demo_yield ! 2),
               Process := (Process demo_yield)[2 := (Process demo_yield ! 2)\<lparr>state := RUNNING\<rparr>],
               NextP := (2 + 1) mod MAXTHREAD demo_yield\<rparr>)
   \<and> Dispatch [] (with_pri (\<lambda>i. 3 * i) demo_yield)
       = map_option (with_pri (\<lambda>i. 3 * i)) (Dispatch [] demo_yield)"
proof -
  have h1: "NextP demo_yield = 3" "NextP demo_yield < MAXTHREAD demo_yield"
    and h2: "\<not> Interrupts demo_yield"
    by code_simp+
  have r: "2 < MAXTHREAD demo_yield \<and> state (Process demo_yield ! 2) = READY"
    by code_simp
  then have h3: "\<exists>i<MAXTHREAD demo_yield. state (Process demo_yield ! i) = READY"
    by blast
  have only: "\<forall>j<MAXTHREAD demo_yield. state (Process demo_yield ! j) = READY \<longrightarrow> j = 2"
    by code_simp
  from Dispatch_round_robin [OF h1(2) h2 h3, of "[]"] obtain k where
    k: "first_READY_after_NextP demo_yield k"
      "Dispatch [] demo_yield =
         Some (demo_yield\<lparr>Interrupts := False, Cp := k,
                 CurrentSp := sp (Process demo_yield ! k),
                 Process := (Process demo_yield)[k := (Process demo_yield ! k)\<lparr>state := RUNNING\<rparr>],
                 NextP := (k + 1) mod MAXTHREAD demo_yield\<rparr>)"
      "\<forall>k0. (\<forall>j<MAXTHREAD demo_yield. state (Process demo_yield ! j) = READY \<longrightarrow> j = k0)
          \<longrightarrow> k = k0"
      "\<forall>g. Dispatch [] (with_pri g demo_yield) = map_option (with_pri g) (Dispatch [] demo_yield)"
    by blast
  from k(3) only have "k = 2" by blast
  with k h1 h2 h3 show ?thesis by blast
qed

section \<open>The initial stack of a task\<close>

lemma scan_DEAD_first:
  "scan_DEAD ps = x \<and> x < length ps \<longleftrightarrow>
     x < length ps \<and> state (ps ! x) = DEAD \<and> (\<forall>j<x. state (ps ! j) \<noteq> DEAD)"
proof (induction ps arbitrary: x)
  case Nil
  then show ?case by simp
next
  case (Cons p ps)
  show ?case
  proof (cases "state p = DEAD")
    case True
    then show ?thesis by (cases x) auto
  next
    case False
    show ?thesis
    proof (cases x)
      case 0
      with False show ?thesis by auto
    next
      case (Suc k)
      have "(\<forall>j<Suc k. state ((p # ps) ! j) \<noteq> DEAD) \<longleftrightarrow> (\<forall>j<k. state (ps ! j) \<noteq> DEAD)"
        using False by (auto simp: less_Suc_eq_0_disj)
      with False Suc Cons.IH [of k] show ?thesis by auto
    qed
  qed
qed

lemma scan_DEAD_eq: "first_DEAD s x \<Longrightarrow> scan_DEAD (Process s) = x"
  using scan_DEAD_first [of "Process s" x]
  by (simp add: first_DEAD_def MAXTHREAD_def)

lemma snd_foldl_push: "snd (foldl push (ws, off) vs) = off - int (length vs)"
  by (induction vs arbitrary: ws off) (simp_all add: push_def)

lemma length_foldl_push: "length (fst (foldl push (ws, off) vs)) = length ws"
  by (induction vs arbitrary: ws off) (simp_all add: push_def)

lemma foldl_push_outside:
  "int i > off \<or> int i \<le> off - int (length vs) \<Longrightarrow>
     fst (foldl push (ws, off) vs) ! i = ws ! i"
proof (induction vs arbitrary: ws off)
  case Nil
  then show ?case by simp
next
  case (Cons v vs)
  have "fst (foldl push (ws, off) (v # vs)) ! i
      = fst (foldl push ((if 0 \<le> off then ws[nat off := v] else ws), off - 1) vs) ! i"
    by (simp add: push_def)
  also have "\<dots> = (if 0 \<le> off then ws[nat off := v] else ws) ! i"
    using Cons.prems by (intro Cons.IH) auto
  also have "\<dots> = ws ! i"
    using Cons.prems by auto
  finally show ?case .
qed

lemma foldl_push_inside:
  "j < length vs \<Longrightarrow> int (length vs) \<le> off + 1 \<Longrightarrow> off < int (length ws) \<Longrightarrow>
     fst (foldl push (ws, off) vs) ! nat (off - int j) = vs ! j"
proof (induction vs arbitrary: ws off j)
  case Nil
  then show ?case by simp
next
  case (Cons v vs)
  have unfold: "fst (foldl push (ws, off) (v # vs))
      = fst (foldl push (ws[nat off := v], off - 1) vs)"
    using Cons.prems by (simp add: push_def)
  show ?case
  proof (cases j)
    case 0
    have "fst (foldl push (ws[nat off := v], off - 1) vs) ! nat off = ws[nat off := v] ! nat off"
      using Cons.prems by (intro foldl_push_outside) auto
    with 0 unfold Cons.prems show ?thesis by simp
  next
    case (Suc k)
    have "fst (foldl push (ws[nat off := v], off - 1) vs) ! nat (off - 1 - int k) = vs ! k"
      using Cons.prems Suc by (intro Cons.IH) auto
    moreover have "off - 1 - int k = off - int j" using Suc by simp
    ultimately show ?thesis using unfold Suc by simp
  qed
qed

lemma length_stack_bytes: "length (stack_bytes tt f) = 40"
  by (simp add: stack_bytes_def)

lemma stack_bytes_nth:
  "stack_bytes tt f ! 0 = ucast tt" "stack_bytes tt f ! Suc 0 = ucast (drop_bit 8 tt)"
  "stack_bytes tt f ! 2 = 0"
  "stack_bytes tt f ! 3 = ucast f" "stack_bytes tt f ! 4 = ucast (drop_bit 8 f)"
  "stack_bytes tt f ! 5 = 0"
  "c < 34 \<Longrightarrow> stack_bytes tt f ! (6 + c) = of_nat c"
proof -
  have m: "(0xff :: 16 word) = mask 8"
    by (simp add: mask_eq_exp_minus_1)
  have lo: "\<And>x :: 16 word. (ucast (x AND 0xff) :: 8 word) = ucast x"
    unfolding m by (rule bit_word_eqI) (auto simp: bit_simps)
  show "stack_bytes tt f ! 0 = ucast tt" "stack_bytes tt f ! Suc 0 = ucast (drop_bit 8 tt)"
    "stack_bytes tt f ! 2 = 0"
    "stack_bytes tt f ! 3 = ucast f" "stack_bytes tt f ! 4 = ucast (drop_bit 8 f)"
    "stack_bytes tt f ! 5 = 0"
    by (simp_all add: stack_bytes_def lo)
  have "stack_bytes tt f ! (6 + c) = map of_nat [0 ..< 34] ! c"
    unfolding stack_bytes_def
    by (simp add: nth_append del: upt_Suc upt_rec_numeral)
  then show "c < 34 \<Longrightarrow> stack_bytes tt f ! (6 + c) = of_nat c"
    by (simp del: upt_Suc upt_rec_numeral)
qed

lemma bytes_make_address:
  "push_bit 8 (ucast (ucast (drop_bit 8 x :: 16 word) :: 8 word)) OR ucast (ucast x :: 8 word) = (x :: 16 word)"
  by (rule bit_word_eqI) (auto simp: bit_simps)

lemma PD_fields:
  "p\<lparr>workSpace := w, pid := q, pri := py, arg := a, request := r, state := st, sp := x,
      code := f\<rparr>
   = \<lparr>pid = q, pri = py, state = st, request = r, request_arg = request_arg p, arg = a,
      sp = x, workSpace = w, code = f\<rparr>"
  by (cases p) simp

lemma Kernel_Create_Task_full:
  "Tasks s = MAXTHREAD s \<Longrightarrow> Kernel_Create_Task tt f py a s = s\<lparr>err := MAX_PROCESS_ERR\<rparr>"
  by (simp add: Kernel_Create_Task_def)

lemma Kernel_Create_Task_alloc:
  assumes "Tasks s \<noteq> MAXTHREAD s" and "first_DEAD s x"
  shows "Kernel_Create_Task tt f py a s =
     s\<lparr>Tasks := Tasks s + 1, last_PID := last_PID s + 1,
       Process := (Process s)[x := new_PD tt f py a s x], err := NO_ERR\<rparr>"
proof -
  have "scan_DEAD (Process s) = x" using assms(2) by (rule scan_DEAD_eq)
  with assms(1) show ?thesis
    by (simp add: Kernel_Create_Task_def Let_def new_PD_def PD_fields)
qed

text \<open>
  C5 (as the code has it). When \<open>Kernel_Create_Task\<close> allocates slot \<open>x\<close> and the workspace
  has at least 41 bytes, it writes from the top of the workspace downward the address of
  \<open>Task_Terminate\<close> (low byte, high byte, a zero byte), then the entry point in the same
  layout, then 34 bytes for the registers (the values 0 to 33), and leaves the bytes below
  zero; the recorded \<open>sp\<close> is \<open>3 + 3 + 34 = 40\<close> bytes below the highest workspace address,
  and the workspace keeps its size.
\<close>

theorem Kernel_Create_Task_stack:
  assumes "Tasks s \<noteq> MAXTHREAD s" and "first_DEAD s x"
    and "41 \<le> WORKSPACE (Process s ! x)"
  shows "let p = Process (Kernel_Create_Task tt f py a s) ! x;
             w = WORKSPACE (Process s ! x);
             top = w - 1
         in WORKSPACE p = w
          \<and> sp p = WorkSpace_ptr x (int top - (3 + 3 + 34))
          \<and> workSpace p ! top = ucast tt
          \<and> workSpace p ! (top - 1) = ucast (drop_bit 8 tt)
          \<and> workSpace p ! (top - 2) = 0
          \<and> workSpace p ! (top - 3) = ucast f
          \<and> workSpace p ! (top - 4) = ucast (drop_bit 8 f)
          \<and> workSpace p ! (top - 5) = 0
          \<and> (\<forall>c<34. workSpace p ! (top - 6 - c) = of_nat c)
          \<and> (\<forall>i<w - 40. workSpace p ! i = 0)
          \<and> push_bit 8 (ucast (workSpace p ! (top - 1))) OR ucast (workSpace p ! top) = tt
          \<and> push_bit 8 (ucast (workSpace p ! (top - 4))) OR ucast (workSpace p ! (top - 3)) = f"
proof -
  let ?w = "WORKSPACE (Process s ! x)"
  let ?st = "initial_stack tt f ?w"
  let ?p = "Process (Kernel_Create_Task tt f py a s) ! x"
  from assms(2) have x: "x < length (Process s)"
    by (simp add: first_DEAD_def MAXTHREAD_def)
  have p: "?p = new_PD tt f py a s x"
    using x by (simp add: Kernel_Create_Task_alloc [OF assms(1,2)])
  have ws: "workSpace ?p = fst ?st" and sp: "sp ?p = WorkSpace_ptr x (snd ?st)"
    by (simp_all add: p new_PD_def)
  have st: "?st = foldl push (replicate ?w 0, int ?w - 1) (stack_bytes tt f)"
    by (simp add: initial_stack_def)
  have len: "length (fst ?st) = ?w"
    by (simp add: st length_foldl_push)
  have off: "snd ?st = int (?w - 1) - (3 + 3 + 34)"
    using assms(3) by (simp add: st snd_foldl_push length_stack_bytes)
  have byte: "\<And>j. j < 40 \<Longrightarrow> fst ?st ! (?w - 1 - j) = stack_bytes tt f ! j"
  proof -
    fix j :: nat assume j: "j < 40"
    have "fst (foldl push (replicate ?w 0, int ?w - 1) (stack_bytes tt f))
            ! nat (int ?w - 1 - int j) = stack_bytes tt f ! j"
      using j assms(3) by (intro foldl_push_inside) (simp_all add: length_stack_bytes)
    moreover have "nat (int ?w - 1 - int j) = ?w - 1 - j"
      using j assms(3) by simp
    ultimately show "fst ?st ! (?w - 1 - j) = stack_bytes tt f ! j"
      by (simp add: st)
  qed
  have b0: "fst ?st ! (?w - 1) = ucast tt"
    using byte [of 0] by (simp add: stack_bytes_nth)
  have b1: "fst ?st ! (?w - 1 - 1) = ucast (drop_bit 8 tt)"
    using byte [of 1] by (simp add: stack_bytes_nth)
  have b2: "fst ?st ! (?w - 1 - 2) = 0"
    using byte [of 2] by (simp add: stack_bytes_nth)
  have b3: "fst ?st ! (?w - 1 - 3) = ucast f"
    using byte [of 3] by (simp add: stack_bytes_nth)
  have b4: "fst ?st ! (?w - 1 - 4) = ucast (drop_bit 8 f)"
    using byte [of 4] by (simp add: stack_bytes_nth)
  have b5: "fst ?st ! (?w - 1 - 5) = 0"
    using byte [of 5] by (simp add: stack_bytes_nth)
  have regs: "\<forall>c<34. fst ?st ! (?w - 1 - 6 - c) = of_nat c"
  proof (intro allI impI)
    fix c :: nat assume c: "c < 34"
    then have "fst ?st ! (?w - 1 - (6 + c)) = stack_bytes tt f ! (6 + c)"
      by (intro byte) simp
    with c show "fst ?st ! (?w - 1 - 6 - c) = of_nat c"
      by (simp add: stack_bytes_nth)
  qed
  have rest: "\<forall>i<?w - 40. fst ?st ! i = 0"
  proof (intro allI impI)
    fix i assume i: "i < ?w - 40"
    have "fst (foldl push (replicate ?w 0, int ?w - 1) (stack_bytes tt f)) ! i
        = replicate ?w 0 ! i"
      using i by (intro foldl_push_outside) (auto simp add: length_stack_bytes)
    with i show "fst ?st ! i = 0" by (simp add: st)
  qed
  have a1: "push_bit 8 (ucast (fst ?st ! (?w - 1 - 1))) OR ucast (fst ?st ! (?w - 1)) = tt"
    by (simp only: b0 b1 bytes_make_address)
  have a2: "push_bit 8 (ucast (fst ?st ! (?w - 1 - 4))) OR ucast (fst ?st ! (?w - 1 - 3)) = f"
    by (simp only: b3 b4 bytes_make_address)
  show ?thesis
    using len off b0 b1 b2 b3 b4 b5 regs rest a1 a2
    by (simp add: Let_def WORKSPACE_def ws sp)
qed

theorem Kernel_Create_Task_stack_witness:
  "Tasks demo_init \<noteq> MAXTHREAD demo_init \<and> first_DEAD demo_init 0
   \<and> 41 \<le> WORKSPACE (Process demo_init ! 0)
   \<and> sp (Process (Kernel_Create_Task 0x0456 0x0123 10 210 demo_init) ! 0) = WorkSpace_ptr 0 7
   \<and> workSpace (Process (Kernel_Create_Task 0x0456 0x0123 10 210 demo_init) ! 0) ! 47 = 0x56
   \<and> workSpace (Process (Kernel_Create_Task 0x0456 0x0123 10 210 demo_init) ! 0) ! 46 = 0x04
   \<and> workSpace (Process (Kernel_Create_Task 0x0456 0x0123 10 210 demo_init) ! 0) ! 44 = 0x23
   \<and> workSpace (Process (Kernel_Create_Task 0x0456 0x0123 10 210 demo_init) ! 0) ! 43 = 0x01"
proof -
  have h: "Tasks demo_init \<noteq> MAXTHREAD demo_init" "first_DEAD demo_init 0"
    "41 \<le> WORKSPACE (Process demo_init ! 0)"
    by code_simp+
  have w: "WORKSPACE (Process demo_init ! 0) = 48"
    by code_simp
  have b: "(ucast (0x0456 :: 16 word) :: 8 word) = 0x56"
    "(ucast (drop_bit 8 (0x0456 :: 16 word)) :: 8 word) = 0x04"
    "(ucast (0x0123 :: 16 word) :: 8 word) = 0x23"
    "(ucast (drop_bit 8 (0x0123 :: 16 word)) :: 8 word) = 0x01"
    by code_simp+
  from Kernel_Create_Task_stack [OF h, of "0x0456" "0x0123" 10 210] h
  show ?thesis
    by (simp add: Let_def w b)
qed

text \<open>
  C5 as the claim states it, with 33 bytes and \<open>sp\<close> 39 bytes below the top, fails on the
  first task of the demo: the workspace has 48 bytes, \<open>sp\<close> is at offset 7 and not at
  \<open>47 - 39 = 8\<close>, and offset 8 holds the last of the 34 register bytes.
\<close>

theorem initial_sp_counterexample:
  "sp (Process (Kernel_Create_Task 0x0456 0x0123 10 210 demo_init) ! 0)
     \<noteq> WorkSpace_ptr 0 (int (WORKSPACE (Process demo_init ! 0) - 1) - (3 + 3 + 33))
   \<and> sp (Process (Kernel_Create_Task 0x0456 0x0123 10 210 demo_init) ! 0) = WorkSpace_ptr 0 7
   \<and> workSpace (Process (Kernel_Create_Task 0x0456 0x0123 10 210 demo_init) ! 0) ! 8 = 33"
  by code_simp

section \<open>Invariants of the reachable states\<close>

lemma same_slots_nth:
  assumes "same_slots s s'"
  shows "MAXTHREAD s' = MAXTHREAD s"
    and "i < MAXTHREAD s \<Longrightarrow> pid (Process s' ! i) = pid (Process s ! i)"
    and "i < MAXTHREAD s \<Longrightarrow> (state (Process s' ! i) = DEAD) = (state (Process s ! i) = DEAD)"
    and "i < MAXTHREAD s \<Longrightarrow>
           (state (Process s' ! i) = RUNNING) = (state (Process s ! i) = RUNNING)"
proof -
  from assms have pd: "map pid (Process s') = map pid (Process s)"
    and dd: "map (\<lambda>p. state p = DEAD) (Process s') = map (\<lambda>p. state p = DEAD) (Process s)"
    and rr: "map (\<lambda>p. state p = RUNNING) (Process s') = map (\<lambda>p. state p = RUNNING) (Process s)"
    by (simp_all add: same_slots_def)
  from pd have len: "length (Process s') = length (Process s)"
    by (rule map_eq_imp_length_eq)
  then show "MAXTHREAD s' = MAXTHREAD s" by (simp add: MAXTHREAD_def)
  assume i: "i < MAXTHREAD s"
  from pd have "map pid (Process s') ! i = map pid (Process s) ! i" by simp
  with i len show "pid (Process s' ! i) = pid (Process s ! i)"
    by (simp add: MAXTHREAD_def)
  from dd have "map (\<lambda>p. state p = DEAD) (Process s') ! i
      = map (\<lambda>p. state p = DEAD) (Process s) ! i" by simp
  with i len show "(state (Process s' ! i) = DEAD) = (state (Process s ! i) = DEAD)"
    by (simp add: MAXTHREAD_def)
  from rr have "map (\<lambda>p. state p = RUNNING) (Process s') ! i
      = map (\<lambda>p. state p = RUNNING) (Process s) ! i" by simp
  with i len show "(state (Process s' ! i) = RUNNING) = (state (Process s ! i) = RUNNING)"
    by (simp add: MAXTHREAD_def)
qed

lemma live_map: "live s = length (filter Not (map (\<lambda>p. state p = DEAD) (Process s)))"
  by (simp add: live_def filter_map comp_def)

lemma same_slots_live: "same_slots s s' \<Longrightarrow> live s' = live s"
  by (simp add: live_map same_slots_def)

lemma same_slots_table_ok:
  assumes "same_slots s s'" and "NextP s' = NextP s" and "Tasks s' = Tasks s"
    and "last_PID s' = last_PID s"
  shows "table_ok s' = table_ok s"
  using assms same_slots_nth [OF assms(1)] same_slots_live [OF assms(1)]
  by (simp add: table_ok_def)

lemma same_slots_one_RUNNING:
  "same_slots s s' \<Longrightarrow> Cp s' = Cp s \<Longrightarrow> one_RUNNING s' = one_RUNNING s"
  using same_slots_nth [of s s'] by (simp add: one_RUNNING_def)

lemma same_slots_none_RUNNING:
  "same_slots s s' \<Longrightarrow> none_RUNNING s' = none_RUNNING s"
  using same_slots_nth [of s s'] by (simp add: none_RUNNING_def)

lemma same_slots_refl: "same_slots s s"
  by (simp add: same_slots_def)

lemma same_slots_trans: "same_slots s s' \<Longrightarrow> same_slots s' s'' \<Longrightarrow> same_slots s s''"
  by (simp add: same_slots_def)

lemma map_update_same: "f y = f (xs ! i) \<Longrightarrow> map f (xs[i := y]) = map f xs"
  by (cases "i < length xs") (simp_all add: map_update list_update_same_conv list_update_beyond)

lemma same_slots_update:
  "pid p' = pid (Process s ! i) \<Longrightarrow>
   (state p' = DEAD) = (state (Process s ! i) = DEAD) \<Longrightarrow>
   (state p' = RUNNING) = (state (Process s ! i) = RUNNING) \<Longrightarrow>
   Process s' = (Process s)[i := p'] \<Longrightarrow> same_slots s s'"
  by (simp add: same_slots_def map_update_same)

lemma same_slots_upd_Cp:
  "(\<And>p. state (g p) = state p \<and> pid (g p) = pid p) \<Longrightarrow> same_slots s (upd_Cp g s)"
  by (rule same_slots_update [where i = "Cp s" and p' = "g (Process s ! Cp s)"])
     (simp_all add: upd_Cp_def)

lemma tick_PD_same:
  "pid (tick_PD p) = pid p" "(state (tick_PD p) = DEAD) = (state p = DEAD)"
  "(state (tick_PD p) = RUNNING) = (state p = RUNNING)"
  by (auto simp: tick_PD_def Let_def)

lemma same_slots_ISR: "same_slots s (ISR s)"
  by (simp add: same_slots_def ISR_def tick_PD_same)

lemma same_slots_Suspend: "same_slots s (Kernel_Suspend_Task s)"
proof (cases "findProcessByPID s (request_arg (Process s ! Cp s))")
  case None
  then show ?thesis by (simp add: Kernel_Suspend_Task_def same_slots_def)
next
  case (Some i)
  show ?thesis
  proof (cases "state (Process s ! i) = READY")
    case True
    with Some show ?thesis
      by (intro same_slots_update [where i = i and p' = "(Process s ! i)\<lparr>state := SUSPENDED\<rparr>"])
         (simp_all add: Kernel_Suspend_Task_def)
  next
    case False
    with Some show ?thesis by (simp add: Kernel_Suspend_Task_def same_slots_def)
  qed
qed

lemma same_slots_Resume: "same_slots s (Kernel_Resume_Task s)"
proof (cases "findProcessByPID s (request_arg (Process s ! Cp s))")
  case None
  then show ?thesis by (simp add: Kernel_Resume_Task_def same_slots_def)
next
  case (Some i)
  show ?thesis
  proof (cases "state (Process s ! i) = SUSPENDED")
    case True
    with Some show ?thesis
      by (intro same_slots_update [where i = i and p' = "(Process s ! i)\<lparr>state := READY\<rparr>"])
         (simp_all add: Kernel_Resume_Task_def)
  next
    case False
    with Some show ?thesis by (simp add: Kernel_Resume_Task_def same_slots_def)
  qed
qed

lemma Suspend_Resume_frame:
  "NextP (Kernel_Suspend_Task s) = NextP s" "Tasks (Kernel_Suspend_Task s) = Tasks s"
  "last_PID (Kernel_Suspend_Task s) = last_PID s" "Cp (Kernel_Suspend_Task s) = Cp s"
  "KernelActive (Kernel_Suspend_Task s) = KernelActive s"
  "NextP (Kernel_Resume_Task s) = NextP s" "Tasks (Kernel_Resume_Task s) = Tasks s"
  "last_PID (Kernel_Resume_Task s) = last_PID s" "Cp (Kernel_Resume_Task s) = Cp s"
  "KernelActive (Kernel_Resume_Task s) = KernelActive s"
  by (simp_all add: Kernel_Suspend_Task_def Kernel_Resume_Task_def split: option.split)

lemma Dispatch_loop_rule:
  assumes run: "Dispatch_loop ticks i s = Some s'"
    and Q: "Q s"
    and nxt: "\<And>s. Q s \<Longrightarrow> Q (s\<lparr>NextP := (NextP s + 1) mod MAXTHREAD s\<rparr>)"
    and en: "\<And>s. Q s \<Longrightarrow> Q (Enable_Interrupt s)"
    and isr: "\<And>s. Q s \<Longrightarrow> Q (ISR s)"
  shows "Q s' \<and> state (Process s' ! NextP s') = READY"
proof -
  have "Q s \<longrightarrow> Q s' \<and> state (Process s' ! NextP s') = READY"
  proof (rule Dispatch_loop.raw_induct
      [where P = "\<lambda>_ _ s s'. Q s \<longrightarrow> Q s' \<and> state (Process s' ! NextP s') = READY", OF _ run])
    fix D :: "bool list \<Rightarrow> nat \<Rightarrow> kernel \<Rightarrow> kernel option"
    fix ticks i s s'
    assume IH: "\<And>i s b y. D i s b = Some y \<Longrightarrow>
        Q b \<longrightarrow> Q y \<and> state (Process y ! NextP y) = READY"
    assume hyp: "(if state (Process s ! NextP s) \<noteq> READY then
          let s1 = s\<lparr>NextP := (NextP s + 1) mod MAXTHREAD s\<rparr>;
              s2 = (if i + 1 > MAXTHREAD s then Enable_Interrupt s1 else s1)
          in (if Interrupts s2 then
                (case ticks of
                   [] \<Rightarrow> D [] (i + 1) s2
                 | t # ts \<Rightarrow> D ts (i + 1) (if t then ISR s2 else s2))
              else D ticks (i + 1) s2)
        else Some s) = Some s'"
    show "Q s \<longrightarrow> Q s' \<and> state (Process s' ! NextP s') = READY"
    proof
      assume Qs: "Q s"
      show "Q s' \<and> state (Process s' ! NextP s') = READY"
      proof (cases "state (Process s ! NextP s) = READY")
        case True
        with Qs hyp show ?thesis by simp
      next
        case False
        let ?s1 = "s\<lparr>NextP := (NextP s + 1) mod MAXTHREAD s\<rparr>"
        let ?s2 = "if MAXTHREAD s < i + 1 then Enable_Interrupt ?s1 else ?s1"
        have Q1: "Q ?s1" using Qs by (rule nxt)
        have Q2: "Q ?s2" using Q1 by (simp add: en)
        from hyp have body:
          "(if Interrupts ?s2 then
              (case ticks of [] \<Rightarrow> D [] (i + 1) ?s2
               | t # ts \<Rightarrow> D ts (i + 1) (if t then ISR ?s2 else ?s2))
            else D ticks (i + 1) ?s2) = Some s'"
          by (simp only: False Let_def if_True simp_thms)
        show ?thesis
        proof (cases "Interrupts ?s2")
          case False
          with body have "D ticks (i + 1) ?s2 = Some s'" by simp
          from IH [OF this] Q2 show ?thesis by blast
        next
          case True
          show ?thesis
          proof (cases ticks)
            case Nil
            with True body have "D [] (i + 1) ?s2 = Some s'" by simp
            from IH [OF this] Q2 show ?thesis by blast
          next
            case (Cons t ts)
            with True body have "D ts (i + 1) (if t then ISR ?s2 else ?s2) = Some s'" by simp
            moreover have "Q (if t then ISR ?s2 else ?s2)" using Q2 by (simp add: isr)
            ultimately show ?thesis using IH by blast
          qed
        qed
      qed
    qed
  qed
  with Q show ?thesis by simp
qed

lemma Dispatch_loop_frame:
  assumes "Dispatch_loop ticks i s = Some s'" and "NextP s < MAXTHREAD s"
  shows "loop_frame s s' \<and> state (Process s' ! NextP s') = READY"
proof (rule Dispatch_loop_rule [OF assms(1), where Q = "loop_frame s"])
  show "loop_frame s s"
    using assms(2) by (simp add: loop_frame_def same_slots_refl)
next
  fix t assume a: "loop_frame s t"
  then have M: "MAXTHREAD t = MAXTHREAD s"
    by (simp add: loop_frame_def same_slots_nth(1))
  from a have "same_slots s (t\<lparr>NextP := (NextP t + 1) mod MAXTHREAD t\<rparr>)"
    by (simp add: loop_frame_def same_slots_def)
  with a M show "loop_frame s (t\<lparr>NextP := (NextP t + 1) mod MAXTHREAD t\<rparr>)"
    by (simp add: loop_frame_def)
next
  fix t assume a: "loop_frame s t"
  then have "same_slots s (Enable_Interrupt t)"
    by (simp add: loop_frame_def same_slots_def Enable_Interrupt_def)
  with a show "loop_frame s (Enable_Interrupt t)"
    by (simp add: loop_frame_def Enable_Interrupt_def)
next
  fix t assume a: "loop_frame s t"
  then have "same_slots s (ISR t)"
    using same_slots_ISR [of t] by (auto simp: loop_frame_def intro: same_slots_trans)
  with a show "loop_frame s (ISR t)"
    by (simp add: loop_frame_def ISR_def)
qed

lemma length_filter_update:
  "i < length xs \<Longrightarrow>
     length (filter P (xs[i := y])) + (if P (xs ! i) then 1 else 0)
       = length (filter P xs) + (if P y then 1 else 0)"
proof (induction xs arbitrary: i)
  case Nil
  then show ?case by simp
next
  case (Cons x xs)
  show ?case
  proof (cases i)
    case 0
    then show ?thesis by simp
  next
    case (Suc k)
    with Cons.prems have "k < length xs" by simp
    from Cons.IH [OF this] Suc show ?thesis by simp
  qed
qed

lemma live_update:
  assumes "i < MAXTHREAD s" and "Process s' = (Process s)[i := p']"
  shows "live s' + (if state (Process s ! i) \<noteq> DEAD then 1 else 0)
       = live s + (if state p' \<noteq> DEAD then 1 else 0)"
  using length_filter_update [of i "Process s" "\<lambda>p. state p \<noteq> DEAD" p'] assms
  by (simp add: live_def MAXTHREAD_def)

lemma exists_first_DEAD:
  assumes "live s < MAXTHREAD s"
  shows "\<exists>x. first_DEAD s x"
proof -
  have "\<exists>i<MAXTHREAD s. state (Process s ! i) = DEAD"
  proof (rule ccontr)
    assume "\<not> (\<exists>i<MAXTHREAD s. state (Process s ! i) = DEAD)"
    then have "\<forall>p\<in>set (Process s). state p \<noteq> DEAD"
      by (auto simp: MAXTHREAD_def in_set_conv_nth)
    then have "filter (\<lambda>p. state p \<noteq> DEAD) (Process s) = Process s"
      by (simp add: filter_id_conv)
    with assms show False by (simp add: live_def MAXTHREAD_def)
  qed
  then obtain i where i: "i < MAXTHREAD s \<and> state (Process s ! i) = DEAD" by blast
  let ?P = "\<lambda>i. i < MAXTHREAD s \<and> state (Process s ! i) = DEAD"
  from i have L: "?P (LEAST i. ?P i)" by (rule LeastI)
  have "\<forall>j<(LEAST i. ?P i). state (Process s ! j) \<noteq> DEAD"
  proof (intro allI impI)
    fix j assume j: "j < (LEAST i. ?P i)"
    then have "\<not> ?P j" by (rule not_less_Least)
    moreover from j L have "j < MAXTHREAD s" by simp
    ultimately show "state (Process s ! j) \<noteq> DEAD" by simp
  qed
  with L show ?thesis unfolding first_DEAD_def by blast
qed

lemma retire_Cp:
  assumes t: "table_ok s" and r: "one_RUNNING s" and X: "X \<noteq> RUNNING"
  shows "table_ok (upd_Cp (\<lambda>p. p\<lparr>state := X\<rparr>) s)"
    and "none_RUNNING (upd_Cp (\<lambda>p. p\<lparr>state := X\<rparr>) s)"
proof -
  let ?s1 = "upd_Cp (\<lambda>p. p\<lparr>state := X\<rparr>) s"
  from r have c: "Cp s < MAXTHREAD s" and run: "state (Process s ! Cp s) = RUNNING"
    and others: "\<And>i. i < MAXTHREAD s \<Longrightarrow> i \<noteq> Cp s \<Longrightarrow> state (Process s ! i) \<noteq> RUNNING"
    by (auto simp: one_RUNNING_def)
  have P: "Process ?s1 = (Process s)[Cp s := (Process s ! Cp s)\<lparr>state := X\<rparr>]"
    by (simp add: upd_Cp_def)
  have M: "MAXTHREAD ?s1 = MAXTHREAD s"
    by (simp add: upd_Cp_def MAXTHREAD_def)
  have nth: "\<And>i. i < MAXTHREAD s \<Longrightarrow>
      Process ?s1 ! i = (if i = Cp s then (Process s ! Cp s)\<lparr>state := X\<rparr> else Process s ! i)"
    by (simp add: P MAXTHREAD_def nth_list_update)
  from live_update [OF c P] run have "live ?s1 \<le> live s"
    by (simp split: if_splits)
  moreover from t run c have "pid (Process s ! Cp s) \<noteq> 0"
    by (auto simp: table_ok_def)
  moreover have "NextP ?s1 = NextP s" "Tasks ?s1 = Tasks s" "last_PID ?s1 = last_PID s"
    by (simp_all add: upd_Cp_def)
  ultimately show "table_ok ?s1"
    using t by (auto simp: table_ok_def M nth)
  show "none_RUNNING ?s1"
    using X others by (auto simp: none_RUNNING_def M nth)
qed

lemma Dispatch_inv:
  assumes D: "Dispatch ticks s = Some s'" and t: "table_ok s" and n: "none_RUNNING s"
  shows "table_ok s' \<and> one_RUNNING s' \<and> KernelActive s' = KernelActive s
     \<and> map pid (Process s') = map pid (Process s)
     \<and> Tasks s' = Tasks s \<and> last_PID s' = last_PID s \<and> err s' = err s
     \<and> map (\<lambda>p. state p = DEAD) (Process s') = map (\<lambda>p. state p = DEAD) (Process s)"
proof -
  from D obtain u where u: "Dispatch_loop ticks 0 s = Some u" and s': "s' = Dispatch_select u"
    by (auto simp: Dispatch_def)
  from t have N: "NextP s < MAXTHREAD s" and pos: "0 < MAXTHREAD s"
    by (simp_all add: table_ok_def)
  from Dispatch_loop_frame [OF u N] have f: "loop_frame s u"
    and rdy: "state (Process u ! NextP u) = READY" by simp_all
  from f have ss: "same_slots s u" and Nu: "NextP u < MAXTHREAD s"
    and sc: "Tasks u = Tasks s" "last_PID u = last_PID s" "KernelActive u = KernelActive s"
      "err u = err s"
    using pos by (simp_all add: loop_frame_def)
  have Mu: "MAXTHREAD u = MAXTHREAD s" using ss by (rule same_slots_nth(1))
  have tu: "table_ok u"
    using t Nu same_slots_nth [OF ss] same_slots_live [OF ss] sc
    by (simp add: table_ok_def)
  have nu: "none_RUNNING u" using n ss by (simp add: same_slots_none_RUNNING)
  let ?k = "NextP u"
  have P': "Process s' = (Process u)[?k := (Process u ! ?k)\<lparr>state := RUNNING\<rparr>]"
    and sc': "Cp s' = ?k" "NextP s' = (?k + 1) mod MAXTHREAD u" "Tasks s' = Tasks u"
      "last_PID s' = last_PID u" "KernelActive s' = KernelActive u" "err s' = err u"
    by (simp_all add: s' Dispatch_select_def Let_def upd_Cp_def Disable_Interrupt_def
        MAXTHREAD_def)
  have M': "MAXTHREAD s' = MAXTHREAD u" by (simp add: P' MAXTHREAD_def)
  have nth: "\<And>i. i < MAXTHREAD u \<Longrightarrow>
      Process s' ! i = (if i = ?k then (Process u ! ?k)\<lparr>state := RUNNING\<rparr> else Process u ! i)"
    by (simp add: P' MAXTHREAD_def nth_list_update)
  from live_update [of ?k u s', OF _ P'] Nu Mu rdy have lv: "live s' = live u"
    by simp
  have "table_ok s'"
    using tu lv rdy pos Mu by (auto simp: table_ok_def M' sc' nth)
  moreover have "one_RUNNING s'"
    using nu Nu Mu by (auto simp: one_RUNNING_def none_RUNNING_def M' sc' nth)
  moreover have "map pid (Process s') = map pid (Process u)"
    by (simp add: P' map_update_same)
  moreover have "map pid (Process u) = map pid (Process s)"
    using ss by (simp add: same_slots_def)
  moreover have "map (\<lambda>p. state p = DEAD) (Process s') = map (\<lambda>p. state p = DEAD) (Process u)"
    using rdy by (simp add: P' map_update_same)
  moreover have "map (\<lambda>p. state p = DEAD) (Process u) = map (\<lambda>p. state p = DEAD) (Process s)"
    using ss by (simp add: same_slots_def)
  ultimately show ?thesis using sc sc' by simp
qed

lemma RUNNING_map_nth:
  assumes "map (\<lambda>p. state p = RUNNING) (Process s') = map (\<lambda>p. state p = RUNNING) (Process s)"
  shows "MAXTHREAD s' = MAXTHREAD s"
    and "i < MAXTHREAD s \<Longrightarrow>
           (state (Process s' ! i) = RUNNING) = (state (Process s ! i) = RUNNING)"
proof -
  from assms have len: "length (Process s') = length (Process s)"
    by (rule map_eq_imp_length_eq)
  then show "MAXTHREAD s' = MAXTHREAD s" by (simp add: MAXTHREAD_def)
  assume i: "i < MAXTHREAD s"
  from assms have "map (\<lambda>p. state p = RUNNING) (Process s') ! i
      = map (\<lambda>p. state p = RUNNING) (Process s) ! i" by simp
  with i len show "(state (Process s' ! i) = RUNNING) = (state (Process s ! i) = RUNNING)"
    by (simp add: MAXTHREAD_def)
qed

lemma RUNNING_map_inv:
  assumes "map (\<lambda>p. state p = RUNNING) (Process s') = map (\<lambda>p. state p = RUNNING) (Process s)"
  shows "Cp s' = Cp s \<Longrightarrow> one_RUNNING s' = one_RUNNING s"
    and "none_RUNNING s' = none_RUNNING s"
  using RUNNING_map_nth [OF assms]
  by (simp_all add: one_RUNNING_def none_RUNNING_def)

lemma Kernel_Create_Task_frame:
  "Cp (Kernel_Create_Task tt f py a s) = Cp s"
  "KernelActive (Kernel_Create_Task tt f py a s) = KernelActive s"
  "NextP (Kernel_Create_Task tt f py a s) = NextP s"
  by (simp_all add: Kernel_Create_Task_def Let_def)

lemma Kernel_Create_Task_inv:
  assumes t: "table_ok s"
  shows "table_ok (Kernel_Create_Task tt f py a s)"
    and "map (\<lambda>p. state p = RUNNING) (Process (Kernel_Create_Task tt f py a s))
           = map (\<lambda>p. state p = RUNNING) (Process s)"
proof -
  let ?s' = "Kernel_Create_Task tt f py a s"
  have "table_ok ?s' \<and> map (\<lambda>p. state p = RUNNING) (Process ?s')
           = map (\<lambda>p. state p = RUNNING) (Process s)"
  proof (cases "Tasks s = MAXTHREAD s")
    case True
    then have "?s' = s\<lparr>err := MAX_PROCESS_ERR\<rparr>" by (rule Kernel_Create_Task_full)
    with t show ?thesis by (simp add: table_ok_def MAXTHREAD_def live_def)
  next
    case False
    with t have lt: "Tasks s < MAXTHREAD s" and "live s < MAXTHREAD s"
      by (simp_all add: table_ok_def)
    then obtain x where x: "first_DEAD s x" using exists_first_DEAD by blast
    then have xM: "x < MAXTHREAD s" and dead: "state (Process s ! x) = DEAD"
      by (simp_all add: first_DEAD_def)
    have eq: "?s' = s\<lparr>Tasks := Tasks s + 1, last_PID := last_PID s + 1,
         Process := (Process s)[x := new_PD tt f py a s x], err := NO_ERR\<rparr>"
      using False x by (rule Kernel_Create_Task_alloc)
    have P: "Process ?s' = (Process s)[x := new_PD tt f py a s x]"
      and sc: "Tasks ?s' = Tasks s + 1" "last_PID ?s' = last_PID s + 1" "NextP ?s' = NextP s"
      by (simp_all add: eq)
    have M: "MAXTHREAD ?s' = MAXTHREAD s" by (simp add: P MAXTHREAD_def)
    have nth: "\<And>i. i < MAXTHREAD s \<Longrightarrow>
        Process ?s' ! i = (if i = x then new_PD tt f py a s x else Process s ! i)"
      by (simp add: P MAXTHREAD_def nth_list_update)
    have np: "state (new_PD tt f py a s x) = READY" "pid (new_PD tt f py a s x) = last_PID s + 1"
      by (simp_all add: new_PD_def)
    from live_update [OF xM P] dead np have lv: "live ?s' = live s + 1" by simp
    from t lt have u: "unat (last_PID s + 1) = Tasks s + 1"
      by (simp add: table_ok_def unat_word_ariths)
    then have nz: "last_PID s + 1 \<noteq> 0" by (auto simp: unat_eq_0 [symmetric])
    have "table_ok ?s'"
      using t lt lv u nz by (auto simp: table_ok_def M sc nth np)
    moreover have "map (\<lambda>p. state p = RUNNING) (Process ?s')
        = map (\<lambda>p. state p = RUNNING) (Process s)"
      using dead np by (simp add: P map_update_same)
    ultimately show ?thesis by simp
  qed
  then show "table_ok ?s'"
    and "map (\<lambda>p. state p = RUNNING) (Process ?s') = map (\<lambda>p. state p = RUNNING) (Process s)"
    by simp_all
qed

lemma OS_Init_inv:
  assumes "last_PID s0 = 0" and "0 < MAXTHREAD s0" and "MAXTHREAD s0 < 2 ^ 16"
  shows "kernel_inv (OS_Init s0)"
proof -
  have "filter (\<lambda>p. state p \<noteq> DEAD) (Process (OS_Init s0)) = []"
    by (simp add: OS_Init_def filter_empty_conv)
  then have "live (OS_Init s0) = 0" by (simp add: live_def)
  then show ?thesis
    using assms
    by (simp add: kernel_inv_def table_ok_def none_RUNNING_def)
       (simp add: OS_Init_def MAXTHREAD_def)
qed

lemma upd_Cp_field_inv:
  assumes g: "\<And>p. state (g p) = state p \<and> pid (g p) = pid p"
  shows "table_ok (upd_Cp g s) = table_ok s"
    and "one_RUNNING (upd_Cp g s) = one_RUNNING s"
    and "none_RUNNING (upd_Cp g s) = none_RUNNING s"
proof -
  have ss: "same_slots s (upd_Cp g s)" using g by (rule same_slots_upd_Cp)
  have sc: "NextP (upd_Cp g s) = NextP s" "Tasks (upd_Cp g s) = Tasks s"
    "last_PID (upd_Cp g s) = last_PID s" "Cp (upd_Cp g s) = Cp s"
    by (simp_all add: upd_Cp_def)
  show "table_ok (upd_Cp g s) = table_ok s"
    using ss sc by (intro same_slots_table_ok)
  show "one_RUNNING (upd_Cp g s) = one_RUNNING s"
    using ss sc by (intro same_slots_one_RUNNING)
  show "none_RUNNING (upd_Cp g s) = none_RUNNING s"
    using ss by (rule same_slots_none_RUNNING)
qed

lemma upd_Cp_frame:
  "KernelActive (upd_Cp g s) = KernelActive s" "Cp (upd_Cp g s) = Cp s"
  "Tasks (upd_Cp g s) = Tasks s" "MAXTHREAD (upd_Cp g s) = MAXTHREAD s"
  by (simp_all add: upd_Cp_def MAXTHREAD_def)

lemma scalar_inv:
  "table_ok (s\<lparr>err := e\<rparr>) = table_ok s" "one_RUNNING (s\<lparr>err := e\<rparr>) = one_RUNNING s"
  "none_RUNNING (s\<lparr>err := e\<rparr>) = none_RUNNING s"
  "table_ok (s\<lparr>CurrentSp := c\<rparr>) = table_ok s"
  "one_RUNNING (s\<lparr>CurrentSp := c\<rparr>) = one_RUNNING s"
  "none_RUNNING (s\<lparr>CurrentSp := c\<rparr>) = none_RUNNING s"
  "table_ok (s\<lparr>Interrupts := b\<rparr>) = table_ok s"
  "one_RUNNING (s\<lparr>Interrupts := b\<rparr>) = one_RUNNING s"
  "none_RUNNING (s\<lparr>Interrupts := b\<rparr>) = none_RUNNING s"
  "table_ok (s\<lparr>KernelActive := k\<rparr>) = table_ok s"
  "one_RUNNING (s\<lparr>KernelActive := k\<rparr>) = one_RUNNING s"
  "none_RUNNING (s\<lparr>KernelActive := k\<rparr>) = none_RUNNING s"
  by (simp_all add: table_ok_def one_RUNNING_def none_RUNNING_def MAXTHREAD_def live_def)

lemma Suspend_Resume_inv:
  "table_ok (Kernel_Suspend_Task s) = table_ok s"
  "one_RUNNING (Kernel_Suspend_Task s) = one_RUNNING s"
  "table_ok (Kernel_Resume_Task s) = table_ok s"
  "one_RUNNING (Kernel_Resume_Task s) = one_RUNNING s"
proof -
  show "table_ok (Kernel_Suspend_Task s) = table_ok s"
    using same_slots_Suspend Suspend_Resume_frame(1-3) by (rule same_slots_table_ok)
  show "one_RUNNING (Kernel_Suspend_Task s) = one_RUNNING s"
    using same_slots_Suspend Suspend_Resume_frame(4) by (rule same_slots_one_RUNNING)
  show "table_ok (Kernel_Resume_Task s) = table_ok s"
    using same_slots_Resume Suspend_Resume_frame(6-8) by (rule same_slots_table_ok)
  show "one_RUNNING (Kernel_Resume_Task s) = one_RUNNING s"
    using same_slots_Resume Suspend_Resume_frame(9) by (rule same_slots_one_RUNNING)
qed

lemma switch_inv:
  assumes sw: "Next_Kernel_Request_switch tt ticks s0 = Some s'"
    and t0: "table_ok s0" and r0: "one_RUNNING s0"
  shows "table_ok s' \<and> one_RUNNING s' \<and> KernelActive s' = KernelActive s0"
proof -
  let ?s = "upd_Cp (\<lambda>p. p\<lparr>sp := CurrentSp s0\<rparr>) s0"
  have t: "table_ok ?s" and r: "one_RUNNING ?s"
    using t0 r0 by (simp_all add: upd_Cp_field_inv)
  have ka: "KernelActive ?s = KernelActive s0" by (simp add: upd_Cp_frame)
  let ?goal = "table_ok s' \<and> one_RUNNING s' \<and> KernelActive s' = KernelActive s0"
  have retire: "\<And>X. X \<noteq> RUNNING \<Longrightarrow>
      Dispatch ticks (upd_Cp (\<lambda>p. p\<lparr>state := X\<rparr>) ?s) = Some s' \<Longrightarrow> ?goal"
  proof -
    fix X :: PROCESS_STATES
    assume X: "X \<noteq> RUNNING"
      and D: "Dispatch ticks (upd_Cp (\<lambda>p. p\<lparr>state := X\<rparr>) ?s) = Some s'"
    from Dispatch_inv [OF D retire_Cp [OF t r X]] ka
    show ?goal by (simp add: upd_Cp_frame)
  qed
  show ?thesis
  proof (cases "request (Process ?s ! Cp ?s)")
    case NONE
    with sw show ?thesis
      by (intro retire [of READY]) (simp_all add: Next_Kernel_Request_switch_def Let_def)
  next
    case CREATE
    with sw have s': "s' = Kernel_Create_Task tt (code (Process ?s ! Cp ?s))
        (pri (Process ?s ! Cp ?s)) (arg (Process ?s ! Cp ?s)) ?s"
      by (simp add: Next_Kernel_Request_switch_def Let_def)
    have t': "table_ok s'"
      unfolding s' using t by (rule Kernel_Create_Task_inv(1))
    have "map (\<lambda>p. state p = RUNNING) (Process s') = map (\<lambda>p. state p = RUNNING) (Process ?s)"
      unfolding s' using t by (rule Kernel_Create_Task_inv(2))
    then have "one_RUNNING s' = one_RUNNING ?s"
      by (rule RUNNING_map_inv(1)) (simp add: s' Kernel_Create_Task_frame)
    with t' r ka show ?thesis
      by (simp add: s' Kernel_Create_Task_frame)
  next
    case YIELD
    with sw show ?thesis
      by (intro retire [of READY]) (simp_all add: Next_Kernel_Request_switch_def Let_def)
  next
    case TERMINATE
    with sw show ?thesis
      by (intro retire [of DEAD]) (simp_all add: Next_Kernel_Request_switch_def Let_def)
  next
    case SUSPEND
    with sw have "s' = Kernel_Suspend_Task ?s"
      by (simp add: Next_Kernel_Request_switch_def Let_def)
    with t r ka show ?thesis by (simp add: Suspend_Resume_inv Suspend_Resume_frame)
  next
    case RESUME
    with sw have "s' = Kernel_Resume_Task ?s"
      by (simp add: Next_Kernel_Request_switch_def Let_def)
    with t r ka show ?thesis by (simp add: Suspend_Resume_inv Suspend_Resume_frame)
  next
    case SLEEP
    with sw show ?thesis
      by (intro retire [of SLEEPING]) (simp_all add: Next_Kernel_Request_switch_def Let_def)
  next
    case (INVALID_REQUEST n)
    with sw have "s' = ?s\<lparr>err := INVALID_KERNET_REQUEST_ERR\<rparr>"
      by (simp add: Next_Kernel_Request_switch_def Let_def)
    with t r ka show ?thesis by (simp add: scalar_inv)
  qed
qed

lemma exit_inv:
  "table_ok (Next_Kernel_Request_exit s) = table_ok s"
  "one_RUNNING (Next_Kernel_Request_exit s) = one_RUNNING s"
  "KernelActive (Next_Kernel_Request_exit s) = KernelActive s"
  by (simp_all add: Next_Kernel_Request_exit_def Let_def scalar_inv upd_Cp_field_inv
      upd_Cp_frame)

lemma Kernel_Iteration_inv:
  assumes it: "Kernel_Iteration tt ticks usp s = Some s'"
    and t: "table_ok s" and r: "one_RUNNING s"
  shows "table_ok s' \<and> one_RUNNING s' \<and> KernelActive s' = KernelActive s"
proof -
  from it obtain u where u: "Next_Kernel_Request_switch tt ticks (Enter_Kernel usp s) = Some u"
    and s': "s' = Next_Kernel_Request_exit u"
    by (auto simp: Kernel_Iteration_def)
  from switch_inv [OF u] t r
  have "table_ok u \<and> one_RUNNING u \<and> KernelActive u = KernelActive s"
    by (simp add: Enter_Kernel_def scalar_inv)
  then show ?thesis by (simp add: s' exit_inv)
qed

lemma Task_call_inv:
  "table_ok (Task_call c s) = table_ok s \<and> one_RUNNING (Task_call c s) = one_RUNNING s
   \<and> none_RUNNING (Task_call c s) = none_RUNNING s
   \<and> KernelActive (Task_call c s) = KernelActive s"
  by (cases c; simp add: Task_Terminate_def Task_Yield_def Task_Suspend_def Task_Resume_def
        Task_Sleep_def Disable_Interrupt_def scalar_inv upd_Cp_field_inv upd_Cp_frame)

lemma Task_Create_request_inv:
  "table_ok (Task_Create_request f py a s) = table_ok s"
  "one_RUNNING (Task_Create_request f py a s) = one_RUNNING s"
  "KernelActive (Task_Create_request f py a s) = KernelActive s"
  by (simp_all add: Task_Create_request_def Disable_Interrupt_def scalar_inv upd_Cp_field_inv
      upd_Cp_frame)

lemma Task_Create_inv:
  assumes c: "Task_Create tt ticks usp f py a s = Some (r, s')" and k: "kernel_inv s"
  shows "kernel_inv s'"
proof (cases "KernelActive s")
  case True
  with c have "Kernel_Iteration tt ticks usp (Task_Create_request f py a s) = Some s'"
    by (auto simp: Task_Create_def)
  from Kernel_Iteration_inv [OF this] k True show ?thesis
    by (simp add: kernel_inv_def Task_Create_request_inv)
next
  case False
  with c have s': "s' = Kernel_Create_Task tt f py a s"
    by (auto simp: Task_Create_def Let_def)
  from k False have t: "table_ok s" and n: "none_RUNNING s"
    by (simp_all add: kernel_inv_def)
  have t': "table_ok s'"
    unfolding s' using t by (rule Kernel_Create_Task_inv(1))
  have "map (\<lambda>p. state p = RUNNING) (Process s') = map (\<lambda>p. state p = RUNNING) (Process s)"
    unfolding s' using t by (rule Kernel_Create_Task_inv(2))
  then have "none_RUNNING s' = none_RUNNING s"
    by (rule RUNNING_map_inv(2))
  with t' n False show ?thesis
    by (simp add: kernel_inv_def s' Kernel_Create_Task_frame)
qed

lemma OS_Start_inv:
  assumes st: "OS_Start ticks s = Some s'" and k: "kernel_inv s"
  shows "kernel_inv s'"
proof (cases "\<not> KernelActive s \<and> Tasks s > 0")
  case False
  with st have "s' = s" by (auto simp: OS_Start_def)
  with k show ?thesis by simp
next
  case True
  let ?s1 = "(Disable_Interrupt s)\<lparr>KernelActive := True\<rparr>"
  from True st obtain u where D: "Dispatch ticks ?s1 = Some u"
    and s': "s' = Next_Kernel_Request_exit u"
    by (auto simp: OS_Start_def)
  from k True have "table_ok ?s1" "none_RUNNING ?s1"
    by (simp_all add: kernel_inv_def Disable_Interrupt_def scalar_inv)
  from Dispatch_inv [OF D this] show ?thesis
    by (simp add: kernel_inv_def s' exit_inv)
qed

lemma ISR_inv:
  "table_ok (ISR s) = table_ok s" "one_RUNNING (ISR s) = one_RUNNING s"
  "KernelActive (ISR s) = KernelActive s"
proof -
  have sc: "NextP (ISR s) = NextP s" "Tasks (ISR s) = Tasks s" "last_PID (ISR s) = last_PID s"
    "Cp (ISR s) = Cp s"
    by (simp_all add: ISR_def)
  show "table_ok (ISR s) = table_ok s"
    using same_slots_ISR sc(1-3) by (rule same_slots_table_ok)
  show "one_RUNNING (ISR s) = one_RUNNING s"
    using same_slots_ISR sc(4) by (rule same_slots_one_RUNNING)
  show "KernelActive (ISR s) = KernelActive s"
    by (simp add: ISR_def)
qed

lemma reachable_inv: "reachable tt s \<Longrightarrow> kernel_inv s"
proof (induction rule: reachable.induct)
  case (init s0)
  then show ?case by (rule OS_Init_inv)
next
  case (create s ticks usp f py a r s')
  from Task_Create_inv [OF create.hyps(2) create.IH] show ?case .
next
  case (early s c)
  then show ?case by (simp add: kernel_inv_def Task_call_inv)
next
  case (start s ticks s')
  from OS_Start_inv [OF start.hyps(2) start.IH] show ?case .
next
  case (call s ticks usp c s')
  from Kernel_Iteration_inv [OF call.hyps(3)] call.IH call.hyps(2) show ?case
    by (simp add: kernel_inv_def Task_call_inv)
next
  case (entry s ticks usp r s')
  from Kernel_Iteration_inv [OF entry.hyps(3)] entry.IH entry.hyps(2) show ?case
    by (simp add: kernel_inv_def Disable_Interrupt_def scalar_inv upd_Cp_field_inv upd_Cp_frame)
next
  case (tick s)
  then show ?case by (simp add: kernel_inv_def ISR_inv)
qed

lemma Task_Create_early:
  "\<not> KernelActive s \<Longrightarrow>
     Task_Create tt ticks usp f py a s =
       Some (Task_Create_result (Kernel_Create_Task tt f py a s), Kernel_Create_Task tt f py a s)"
  by (simp add: Task_Create_def Let_def)

lemma Task_Create_entered_Cp:
  assumes "Cp s < MAXTHREAD s"
  shows "Process (Task_Create_entered usp f py a s) ! Cp s
       = (Process s ! Cp s)\<lparr>pri := py, arg := a, request := CREATE, code := f, sp := usp\<rparr>"
    and "Cp (Task_Create_entered usp f py a s) = Cp s"
  using assms
  by (simp_all add: Task_Create_entered_def Task_Create_request_def Enter_Kernel_def
      Disable_Interrupt_def upd_Cp_def MAXTHREAD_def)

lemma Task_Create_active:
  assumes k: "KernelActive s" and c: "Cp s < MAXTHREAD s"
  shows "Task_Create tt ticks usp f py a s =
     Some (Task_Create_result (Kernel_Create_Task tt f py a (Task_Create_entered usp f py a s)),
           Next_Kernel_Request_exit
             (Kernel_Create_Task tt f py a (Task_Create_entered usp f py a s)))"
proof -
  let ?u = "Task_Create_entered usp f py a s"
  have E: "CurrentSp (Enter_Kernel usp (Task_Create_request f py a s)) = usp"
    by (simp add: Enter_Kernel_def)
  have "Next_Kernel_Request_switch tt ticks (Enter_Kernel usp (Task_Create_request f py a s))
      = Some (Kernel_Create_Task tt f py a ?u)"
    using Task_Create_entered_Cp [OF c, of usp f py a]
    by (simp add: Next_Kernel_Request_switch_def Let_def E Task_Create_entered_def [symmetric])
  moreover have "Task_Create_result (Next_Kernel_Request_exit (Kernel_Create_Task tt f py a ?u))
      = Task_Create_result (Kernel_Create_Task tt f py a ?u)"
    by (simp add: Task_Create_result_def Next_Kernel_Request_exit_def Let_def upd_Cp_def)
  ultimately show ?thesis
    using k by (simp add: Task_Create_def Kernel_Iteration_def)
qed

section \<open>The kernel loop returns to a task\<close>

lemma Dispatch_returns:
  assumes "NextP s < MAXTHREAD s" and "\<not> Interrupts s"
    and "\<exists>i<MAXTHREAD s. state (Process s ! i) = READY"
  shows "\<exists>s'. Dispatch ticks s = Some s'"
proof -
  from assms(1,3) obtain k where "first_READY_after_NextP s k"
    using first_READY_exists by blast
  from Dispatch_first_READY [OF assms(1,2) this] show ?thesis by blast
qed

lemma Kernel_Iteration_returns:
  assumes t: "table_ok s" and r: "one_RUNNING s" and i: "\<not> Interrupts s"
    and c: "rq \<notin> {TERMINATE, SLEEP} \<or> (\<exists>i<MAXTHREAD s. state (Process s ! i) = READY)"
  shows "\<exists>s'. Kernel_Iteration tt ticks usp (upd_Cp (\<lambda>p. p\<lparr>request := rq\<rparr>) s) = Some s'"
proof -
  let ?u = "upd_Cp (\<lambda>p. p\<lparr>sp := usp\<rparr>) (Enter_Kernel usp (upd_Cp (\<lambda>p. p\<lparr>request := rq\<rparr>) s))"
  from r have cp: "Cp s < MAXTHREAD s" and run: "state (Process s ! Cp s) = RUNNING"
    by (simp_all add: one_RUNNING_def)
  from t have np: "NextP s < MAXTHREAD s" by (simp add: table_ok_def)
  have fr: "Cp ?u = Cp s" "MAXTHREAD ?u = MAXTHREAD s" "NextP ?u = NextP s"
    "Interrupts ?u = Interrupts s"
    by (simp_all add: upd_Cp_def Enter_Kernel_def MAXTHREAD_def)
  have P: "Process ?u = (Process s)[Cp s := (Process s ! Cp s)\<lparr>request := rq, sp := usp\<rparr>]"
    using cp by (simp add: upd_Cp_def Enter_Kernel_def MAXTHREAD_def)
  have rqu: "request (Process ?u ! Cp ?u) = rq"
    using cp by (simp add: P fr MAXTHREAD_def)
  have cs: "CurrentSp (Enter_Kernel usp (upd_Cp (\<lambda>p. p\<lparr>request := rq\<rparr>) s)) = usp"
    by (simp add: Enter_Kernel_def)
  have sw: "Next_Kernel_Request_switch tt ticks (Enter_Kernel usp (upd_Cp (\<lambda>p. p\<lparr>request := rq\<rparr>) s))
      = (case rq of
           CREATE \<Rightarrow> Some (Kernel_Create_Task tt (code (Process ?u ! Cp ?u))
                       (pri (Process ?u ! Cp ?u)) (arg (Process ?u ! Cp ?u)) ?u)
         | TERMINATE \<Rightarrow> Dispatch ticks (upd_Cp (\<lambda>p. p\<lparr>state := DEAD\<rparr>) ?u)
         | SUSPEND \<Rightarrow> Some (Kernel_Suspend_Task ?u)
         | RESUME \<Rightarrow> Some (Kernel_Resume_Task ?u)
         | SLEEP \<Rightarrow> Dispatch ticks (upd_Cp (\<lambda>p. p\<lparr>state := SLEEPING\<rparr>) ?u)
         | YIELD \<Rightarrow> Dispatch ticks (upd_Cp (\<lambda>p. p\<lparr>state := READY\<rparr>) ?u)
         | NONE \<Rightarrow> Dispatch ticks (upd_Cp (\<lambda>p. p\<lparr>state := READY\<rparr>) ?u)
         | INVALID_REQUEST n \<Rightarrow> Some (?u\<lparr>err := INVALID_KERNET_REQUEST_ERR\<rparr>))"
    unfolding Next_Kernel_Request_switch_def Let_def cs rqu ..
  have disp: "\<And>X. X = READY \<or> (\<exists>i<MAXTHREAD s. state (Process s ! i) = READY) \<Longrightarrow>
      \<exists>s'. Dispatch ticks (upd_Cp (\<lambda>p. p\<lparr>state := X\<rparr>) ?u) = Some s'"
  proof -
    fix X :: PROCESS_STATES
    assume X: "X = READY \<or> (\<exists>i<MAXTHREAD s. state (Process s ! i) = READY)"
    let ?v = "upd_Cp (\<lambda>p. p\<lparr>state := X\<rparr>) ?u"
    have frv: "MAXTHREAD ?v = MAXTHREAD s" "NextP ?v = NextP s" "Interrupts ?v = Interrupts s"
      by (simp_all add: upd_Cp_def Enter_Kernel_def MAXTHREAD_def)
    have Pv: "Process ?v = (Process s)[Cp s := (Process s ! Cp s)\<lparr>request := rq, sp := usp, state := X\<rparr>]"
      using cp by (simp add: upd_Cp_def [of _ ?u] fr P MAXTHREAD_def)
    have nthv: "\<And>j. j < MAXTHREAD s \<Longrightarrow>
        state (Process ?v ! j) = (if j = Cp s then X else state (Process s ! j))"
      by (simp add: Pv MAXTHREAD_def nth_list_update)
    have "\<exists>i<MAXTHREAD s. state (Process ?v ! i) = READY"
    proof (cases "X = READY")
      case True
      have "state (Process ?v ! Cp s) = X" using nthv [OF cp] by simp
      with True cp show ?thesis by blast
    next
      case False
      with X obtain j where j: "j < MAXTHREAD s" "state (Process s ! j) = READY" by blast
      with run have "j \<noteq> Cp s" by auto
      with j have "state (Process ?v ! j) = READY" using nthv [OF j(1)] by simp
      with j show ?thesis by blast
    qed
    then have "\<exists>i<MAXTHREAD ?v. state (Process ?v ! i) = READY"
      by (simp only: frv)
    then show "\<exists>s'. Dispatch ticks ?v = Some s'"
      using np i by (intro Dispatch_returns) (simp_all add: frv)
  qed
  have "\<exists>u'. Next_Kernel_Request_switch tt ticks
      (Enter_Kernel usp (upd_Cp (\<lambda>p. p\<lparr>request := rq\<rparr>) s)) = Some u'"
  proof (cases rq)
    case TERMINATE
    with c disp [of DEAD] sw show ?thesis by simp
  next
    case SLEEP
    with c disp [of SLEEPING] sw show ?thesis by simp
  next
    case YIELD
    with disp [of READY] sw show ?thesis by simp
  next
    case NONE
    with disp [of READY] sw show ?thesis by simp
  qed (use sw in simp_all)
  then show ?thesis by (auto simp: Kernel_Iteration_def)
qed


lemma reachable_create_early:
  assumes "reachable tt s" and "\<not> KernelActive s"
  shows "reachable tt (snd (the (Task_Create tt ticks usp f py a s)))"
proof -
  have e: "Task_Create tt ticks usp f py a s =
      Some (Task_Create_result (Kernel_Create_Task tt f py a s), Kernel_Create_Task tt f py a s)"
    using assms(2) by (rule Task_Create_early)
  from reachable.create [OF assms(1) e] show ?thesis by (simp add: e)
qed

lemma reachable_start_the:
  assumes "reachable tt s" and "OS_Start ticks s \<noteq> None"
  shows "reachable tt (the (OS_Start ticks s))"
  using assms by (auto intro: reachable.start)

lemma reachable_call_the:
  assumes "reachable tt s" and "KernelActive s"
    and "Kernel_Iteration tt ticks usp (Task_call c s) \<noteq> None"
  shows "reachable tt (the (Kernel_Iteration tt ticks usp (Task_call c s)))"
  using assms by (auto intro: reachable.call)

lemma demo_reachable:
  "reachable 0x0456 demo_init" "reachable 0x0456 demo_created" "reachable 0x0456 demo_started"
  "reachable 0x0456 demo_sleeping" "reachable 0x0456 demo_idle"
proof -
  show r0: "reachable 0x0456 demo_init"
    unfolding demo_init_def
    by (rule reachable.init) (simp_all add: boot_def MAXTHREAD_def)
  have k0: "\<not> KernelActive demo_init" by code_simp
  have r1: "reachable 0x0456 demo_ping"
    unfolding demo_ping_def using r0 k0 by (rule reachable_create_early)
  have k1: "\<not> KernelActive demo_ping" by code_simp
  have r2: "reachable 0x0456 demo_pong"
    unfolding demo_pong_def using r1 k1 by (rule reachable_create_early)
  have k2: "\<not> KernelActive demo_pong" by code_simp
  show r3: "reachable 0x0456 demo_created"
    unfolding demo_created_def using r2 k2 by (rule reachable_create_early)
  have "OS_Start [] demo_created \<noteq> None" by code_simp
  with r3 show r4: "reachable 0x0456 demo_started"
    unfolding demo_started_def by (rule reachable_start_the)
  have k4: "KernelActive demo_started" by code_simp
  have "Kernel_Iteration 0x0456 [] (WorkSpace_ptr 0 5) (Task_call (Call_Sleep 1) demo_started)
      \<noteq> None" by code_simp
  with r4 k4 have r5: "reachable 0x0456 demo_ping_asleep"
    unfolding demo_ping_asleep_def by (rule reachable_call_the)
  have k5: "KernelActive demo_ping_asleep" by code_simp
  have "Kernel_Iteration 0x0456 [] (WorkSpace_ptr 1 5) (Task_call (Call_Sleep 3) demo_ping_asleep)
      \<noteq> None" by code_simp
  with r5 k5 show r6: "reachable 0x0456 demo_sleeping"
    unfolding demo_sleeping_def by (rule reachable_call_the)
  have k6: "KernelActive demo_sleeping" by code_simp
  have "Kernel_Iteration 0x0456 [False, True] (WorkSpace_ptr 2 5)
      (Task_call (Call_Sleep 5) demo_sleeping) \<noteq> None" by code_simp
  with r6 k6 show "reachable 0x0456 demo_idle"
    unfolding demo_idle_def by (rule reachable_call_the)
qed



text \<open>
  C4. In every state reachable after \<open>OS_Start\<close> in which a task runs (between a
  \<open>Dispatch\<close> and the next entry into the kernel), \<open>Cp\<close> is a slot of the table, that slot
  is RUNNING and no other slot is. Every request handler preserves this: from a state
  with a well-formed table and exactly one RUNNING slot at \<open>Cp\<close>, whatever request \<open>rq\<close>
  (CREATE, TERMINATE, SUSPEND, RESUME, SLEEP, YIELD, NONE or a value outside the
  enumeration) the task leaves in its descriptor, the state at the next \<open>Exit_Kernel\<close>
  has a well-formed table and exactly one RUNNING slot at \<open>Cp\<close>. With interrupts disabled
  on entry the kernel does reach that \<open>Exit_Kernel\<close>, for every behaviour of the timer,
  unless the request is TERMINATE or SLEEP and no slot is READY (then it waits for a tick
  to wake a sleeper).
\<close>

theorem one_RUNNING_invariant:
  "(reachable tt s \<and> KernelActive s \<longrightarrow> one_RUNNING s)
   \<and> (table_ok s \<and> one_RUNNING s \<longrightarrow>
        (\<forall>s'. Kernel_Iteration tt ticks usp (upd_Cp (\<lambda>p. p\<lparr>request := rq\<rparr>) s) = Some s'
               \<longrightarrow> table_ok s' \<and> one_RUNNING s')
        \<and> (\<not> Interrupts s
             \<and> (rq \<notin> {TERMINATE, SLEEP} \<or> (\<exists>i<MAXTHREAD s. state (Process s ! i) = READY))
            \<longrightarrow> (\<exists>s'. Kernel_Iteration tt ticks usp (upd_Cp (\<lambda>p. p\<lparr>request := rq\<rparr>) s)
                   = Some s')))"
proof (intro conjI impI allI)
  assume "reachable tt s \<and> KernelActive s"
  then show "one_RUNNING s"
    using reachable_inv [of tt s] by (simp add: kernel_inv_def)
next
  fix s'
  assume a: "table_ok s \<and> one_RUNNING s"
    and it: "Kernel_Iteration tt ticks usp (upd_Cp (\<lambda>p. p\<lparr>request := rq\<rparr>) s) = Some s'"
  from a have "table_ok (upd_Cp (\<lambda>p. p\<lparr>request := rq\<rparr>) s)"
    "one_RUNNING (upd_Cp (\<lambda>p. p\<lparr>request := rq\<rparr>) s)"
    by (simp_all add: upd_Cp_field_inv)
  from Kernel_Iteration_inv [OF it this]
  show "table_ok s'" "one_RUNNING s'" by simp_all
next
  assume a: "table_ok s \<and> one_RUNNING s"
    and b: "\<not> Interrupts s
      \<and> (rq \<notin> {TERMINATE, SLEEP} \<or> (\<exists>i<MAXTHREAD s. state (Process s ! i) = READY))"
  then show "\<exists>s'. Kernel_Iteration tt ticks usp (upd_Cp (\<lambda>p. p\<lparr>request := rq\<rparr>) s) = Some s'"
    by (intro Kernel_Iteration_returns) simp_all
qed

theorem one_RUNNING_invariant_witness:
  "reachable 0x0456 demo_idle \<and> KernelActive demo_idle \<and> one_RUNNING demo_idle
   \<and> table_ok demo_started \<and> one_RUNNING demo_started \<and> \<not> Interrupts demo_started
   \<and> (\<exists>s'. Kernel_Iteration 0x0456 [] (WorkSpace_ptr 0 5)
               (upd_Cp (\<lambda>p. p\<lparr>request := YIELD\<rparr>) demo_started) = Some s'
             \<and> table_ok s' \<and> one_RUNNING s')"
proof -
  have k: "KernelActive demo_idle" "KernelActive demo_started" "\<not> Interrupts demo_started"
    by code_simp+
  have t: "table_ok demo_started"
    using reachable_inv [OF demo_reachable(3)] by (simp add: kernel_inv_def)
  from one_RUNNING_invariant [of "0x0456" demo_idle] demo_reachable(5) k(1)
  have a: "one_RUNNING demo_idle" by blast
  from one_RUNNING_invariant [of "0x0456" demo_started] demo_reachable(3) k(2)
  have b: "one_RUNNING demo_started" by blast
  have c: "YIELD \<notin> {TERMINATE, SLEEP}" by simp
  from one_RUNNING_invariant [of "0x0456" demo_started "[]" "WorkSpace_ptr 0 5" YIELD] t b k(3) c
  have "\<exists>s'. Kernel_Iteration 0x0456 [] (WorkSpace_ptr 0 5)
               (upd_Cp (\<lambda>p. p\<lparr>request := YIELD\<rparr>) demo_started) = Some s'
             \<and> table_ok s' \<and> one_RUNNING s'"
    by blast
  with demo_reachable(5) k a t b show ?thesis by blast
qed

section \<open>Creation: the gate on Tasks\<close>

lemma no_DEAD_full:
  assumes t: "table_ok s" and n: "\<forall>i<MAXTHREAD s. state (Process s ! i) \<noteq> DEAD"
  shows "Tasks s = MAXTHREAD s"
proof (rule ccontr)
  assume "Tasks s \<noteq> MAXTHREAD s"
  with t have "live s < MAXTHREAD s" by (simp add: table_ok_def)
  then obtain x where "first_DEAD s x" using exists_first_DEAD by blast
  with n show False by (auto simp: first_DEAD_def)
qed

lemma Task_Create_entered_frame:
  "Tasks (Task_Create_entered usp f py a s) = Tasks s"
  "MAXTHREAD (Task_Create_entered usp f py a s) = MAXTHREAD s"
  by (simp_all add: Task_Create_entered_def Task_Create_request_def Enter_Kernel_def
      Disable_Interrupt_def upd_Cp_def MAXTHREAD_def)

lemma full_reachable:
  "reachable 0x0456 full_created" "reachable 0x0456 full_started"
  "reachable 0x0456 full_terminated"
proof -
  let ?s0 = "OS_Init (boot 2 48)"
  let ?s1 = "snd (the (Task_Create 0x0456 [] NULL 0x0123 10 210 ?s0))"
  have r0: "reachable 0x0456 ?s0"
    by (rule reachable.init) (simp_all add: boot_def MAXTHREAD_def)
  have k0: "\<not> KernelActive ?s0" by code_simp
  have r1: "reachable 0x0456 ?s1" using r0 k0 by (rule reachable_create_early)
  have k1: "\<not> KernelActive ?s1" by code_simp
  show r2: "reachable 0x0456 full_created"
    unfolding full_created_def using r1 k1 by (rule reachable_create_early)
  have "OS_Start [] full_created \<noteq> None" by code_simp
  with r2 show r3: "reachable 0x0456 full_started"
    unfolding full_started_def by (rule reachable_start_the)
  have k3: "KernelActive full_started" by code_simp
  have "Kernel_Iteration 0x0456 [] (WorkSpace_ptr 0 5) (Task_call Call_Terminate full_started)
      \<noteq> None" by code_simp
  with r3 k3 show "reachable 0x0456 full_terminated"
    unfolding full_terminated_def by (rule reachable_call_the)
qed

text \<open>
  The test that guards creation is on the counter \<open>Tasks\<close> (\<open>if (Tasks == MAXTHREAD)\<close>), not
  on the table. In every state reached from \<open>OS_Init\<close> the two branches of
  \<open>Kernel_Create_Task\<close> are as follows, and a table with no DEAD slot has
  \<open>Tasks = MAXTHREAD\<close>.
\<close>

lemma Kernel_Create_Task_gate:
  assumes "reachable tt s"
  shows "(Tasks s = MAXTHREAD s \<longrightarrow>
            Kernel_Create_Task tt f py a s = s\<lparr>err := MAX_PROCESS_ERR\<rparr>
            \<and> (\<exists>s'. Task_Create tt ticks usp f py a s = Some (0, s') \<and> err s' = MAX_PROCESS_ERR)
            \<and> (\<not> KernelActive s \<longrightarrow>
                 Task_Create tt ticks usp f py a s = Some (0, s\<lparr>err := MAX_PROCESS_ERR\<rparr>)))
       \<and> ((\<forall>i<MAXTHREAD s. state (Process s ! i) \<noteq> DEAD) \<longrightarrow> Tasks s = MAXTHREAD s)
       \<and> (Tasks s \<noteq> MAXTHREAD s \<longrightarrow>
            (\<exists>x. first_DEAD s x
               \<and> Kernel_Create_Task tt f py a s =
                   s\<lparr>Tasks := Tasks s + 1, last_PID := last_PID s + 1,
                     Process := (Process s)[x := new_PD tt f py a s x], err := NO_ERR\<rparr>))"
proof -
  from assms have inv: "kernel_inv s" by (rule reachable_inv)
  then have t: "table_ok s" by (simp add: kernel_inv_def)
  have full: "Tasks s = MAXTHREAD s \<longrightarrow>
      Kernel_Create_Task tt f py a s = s\<lparr>err := MAX_PROCESS_ERR\<rparr>
      \<and> (\<exists>s'. Task_Create tt ticks usp f py a s = Some (0, s') \<and> err s' = MAX_PROCESS_ERR)
      \<and> (\<not> KernelActive s \<longrightarrow>
           Task_Create tt ticks usp f py a s = Some (0, s\<lparr>err := MAX_PROCESS_ERR\<rparr>))"
  proof
    assume T: "Tasks s = MAXTHREAD s"
    then have K: "Kernel_Create_Task tt f py a s = s\<lparr>err := MAX_PROCESS_ERR\<rparr>"
      by (rule Kernel_Create_Task_full)
    have early: "\<not> KernelActive s \<longrightarrow>
        Task_Create tt ticks usp f py a s = Some (0, s\<lparr>err := MAX_PROCESS_ERR\<rparr>)"
      by (simp add: Task_Create_early K Task_Create_result_def)
    have "\<exists>s'. Task_Create tt ticks usp f py a s = Some (0, s') \<and> err s' = MAX_PROCESS_ERR"
    proof (cases "KernelActive s")
      case False
      with early show ?thesis by simp
    next
      case True
      with inv have c: "Cp s < MAXTHREAD s" by (simp add: kernel_inv_def one_RUNNING_def)
      let ?u = "Task_Create_entered usp f py a s"
      have "Tasks ?u = MAXTHREAD ?u" using T by (simp add: Task_Create_entered_frame)
      then have Ku: "Kernel_Create_Task tt f py a ?u = ?u\<lparr>err := MAX_PROCESS_ERR\<rparr>"
        by (rule Kernel_Create_Task_full)
      have "err (Next_Kernel_Request_exit (?u\<lparr>err := MAX_PROCESS_ERR\<rparr>)) = MAX_PROCESS_ERR"
        by (simp add: Next_Kernel_Request_exit_def Let_def upd_Cp_def)
      then show ?thesis
        by (simp add: Task_Create_active [OF True c] Ku Task_Create_result_def)
    qed
    with K early show "Kernel_Create_Task tt f py a s = s\<lparr>err := MAX_PROCESS_ERR\<rparr>
      \<and> (\<exists>s'. Task_Create tt ticks usp f py a s = Some (0, s') \<and> err s' = MAX_PROCESS_ERR)
      \<and> (\<not> KernelActive s \<longrightarrow>
           Task_Create tt ticks usp f py a s = Some (0, s\<lparr>err := MAX_PROCESS_ERR\<rparr>))"
      by blast
  qed
  have nodead: "(\<forall>i<MAXTHREAD s. state (Process s ! i) \<noteq> DEAD) \<longrightarrow> Tasks s = MAXTHREAD s"
    using no_DEAD_full [OF t] by blast
  have alloc: "Tasks s \<noteq> MAXTHREAD s \<longrightarrow>
      (\<exists>x. first_DEAD s x
         \<and> Kernel_Create_Task tt f py a s =
             s\<lparr>Tasks := Tasks s + 1, last_PID := last_PID s + 1,
               Process := (Process s)[x := new_PD tt f py a s x], err := NO_ERR\<rparr>)"
  proof
    assume T: "Tasks s \<noteq> MAXTHREAD s"
    with t have "live s < MAXTHREAD s" by (simp add: table_ok_def)
    then obtain x where x: "first_DEAD s x" using exists_first_DEAD by blast
    from Kernel_Create_Task_alloc [OF T x] x
    show "\<exists>x. first_DEAD s x
         \<and> Kernel_Create_Task tt f py a s =
             s\<lparr>Tasks := Tasks s + 1, last_PID := last_PID s + 1,
               Process := (Process s)[x := new_PD tt f py a s x], err := NO_ERR\<rparr>"
      by blast
  qed
  from full nodead alloc show ?thesis by blast
qed

lemma DEAD_slot_live_less:
  assumes "i < MAXTHREAD s" and "state (Process s ! i) = DEAD"
  shows "live s < MAXTHREAD s"
proof -
  from assms have "Process s ! i \<in> set (Process s)" by (simp add: MAXTHREAD_def)
  with assms(2) show ?thesis
    unfolding live_def MAXTHREAD_def by (intro length_filter_less [of "Process s ! i"]) simp_all
qed

text \<open>
  Where the counter agrees with the table (\<open>Tasks\<close> is the number of slots that are not
  DEAD), creation is refused exactly when no slot is DEAD, and otherwise takes the first
  DEAD slot in index order.
\<close>

lemma Kernel_Create_Task_where_Tasks_is_live:
  assumes r: "reachable tt s" and l: "Tasks s = live s"
  shows "((\<forall>i<MAXTHREAD s. state (Process s ! i) \<noteq> DEAD) \<longrightarrow>
            Kernel_Create_Task tt f py a s = s\<lparr>err := MAX_PROCESS_ERR\<rparr>
            \<and> (\<exists>s'. Task_Create tt ticks usp f py a s = Some (0, s') \<and> err s' = MAX_PROCESS_ERR))
       \<and> ((\<exists>i<MAXTHREAD s. state (Process s ! i) = DEAD) \<longrightarrow>
            (\<exists>x. first_DEAD s x
               \<and> Kernel_Create_Task tt f py a s =
                   s\<lparr>Tasks := Tasks s + 1, last_PID := last_PID s + 1,
                     Process := (Process s)[x := new_PD tt f py a s x], err := NO_ERR\<rparr>))"
proof -
  note g = Kernel_Create_Task_gate [OF r, of f py a ticks usp]
  have "(\<exists>i<MAXTHREAD s. state (Process s ! i) = DEAD) \<longrightarrow> Tasks s \<noteq> MAXTHREAD s"
    using DEAD_slot_live_less [of _ s] l by fastforce
  with g show ?thesis by blast
qed

text \<open>
  C2. The code at a table of two slots after two creations and the termination of the
  first task, a state reached from \<open>OS_Init\<close> with the kernel active: slot 0 is DEAD, but
  \<open>Tasks\<close> still equals \<open>MAXTHREAD\<close> (the TERMINATE branch does not decrement it), so
  \<open>Kernel_Create_Task\<close> only sets \<open>err\<close> to \<open>MAX_PROCESS_ERR\<close>, \<open>Task_Create\<close> called by the
  running task returns 0, and slot 0 is still DEAD afterwards: the DEAD slot is not
  allocated.
\<close>

theorem create_refused_with_DEAD_slot:
  "reachable 0x0456 full_terminated \<and> KernelActive full_terminated
   \<and> state (Process full_terminated ! 0) = DEAD
   \<and> Tasks full_terminated = MAXTHREAD full_terminated
   \<and> Kernel_Create_Task 0x0456 0x0345 10 0 full_terminated
       = full_terminated\<lparr>err := MAX_PROCESS_ERR\<rparr>
   \<and> fst (the (Task_Create 0x0456 [] (WorkSpace_ptr 1 5) 0x0345 10 0 full_terminated)) = 0
   \<and> state (Process (snd (the (Task_Create 0x0456 [] (WorkSpace_ptr 1 5) 0x0345 10 0
        full_terminated))) ! 0) = DEAD"
proof -
  have "KernelActive full_terminated
   \<and> state (Process full_terminated ! 0) = DEAD
   \<and> Tasks full_terminated = MAXTHREAD full_terminated
   \<and> Kernel_Create_Task 0x0456 0x0345 10 0 full_terminated
       = full_terminated\<lparr>err := MAX_PROCESS_ERR\<rparr>
   \<and> fst (the (Task_Create 0x0456 [] (WorkSpace_ptr 1 5) 0x0345 10 0 full_terminated)) = 0
   \<and> state (Process (snd (the (Task_Create 0x0456 [] (WorkSpace_ptr 1 5) 0x0345 10 0
        full_terminated))) ! 0) = DEAD"
    by code_simp
  with full_reachable(3) show ?thesis by blast
qed

text \<open>
  C1. The code at the claim's own scenario: in the table of two slots, after two
  creations \<open>Tasks\<close> is 2 and two slots are live; after the first task terminated, slot 0
  is DEAD and one slot is live, but \<open>Tasks\<close> is still 2. The TERMINATE branch of
  \<open>Next_Kernel_Request\<close> does not decrement \<open>Tasks\<close>.
\<close>

theorem Tasks_not_decremented:
  "reachable 0x0456 full_started \<and> Tasks full_started = 2 \<and> live full_started = 2
   \<and> reachable 0x0456 full_terminated \<and> KernelActive full_terminated
   \<and> state (Process full_terminated ! 0) = DEAD
   \<and> Tasks full_terminated = 2 \<and> live full_terminated = 1"
proof -
  have "Tasks full_started = 2 \<and> live full_started = 2 \<and> KernelActive full_terminated
   \<and> state (Process full_terminated ! 0) = DEAD
   \<and> Tasks full_terminated = 2 \<and> live full_terminated = 1"
    by code_simp
  with full_reachable(2,3) show ?thesis by blast
qed

section \<open>Task_Create through the kernel\<close>

lemma scan_code_none: "\<forall>p\<in>set ps. code p \<noteq> g \<Longrightarrow> scan_code ps g = - 1"
  by (induction ps) auto

lemma scan_code_unique:
  "i < length ps \<Longrightarrow> code (ps ! i) = g \<Longrightarrow> \<forall>j<length ps. code (ps ! j) = g \<longrightarrow> j = i \<Longrightarrow>
     scan_code ps g = pid (ps ! i)"
proof (induction ps arbitrary: i)
  case Nil
  then show ?case by simp
next
  case (Cons p ps)
  show ?case
  proof (cases i)
    case 0
    with Cons.prems show ?thesis by simp
  next
    case (Suc k)
    from Cons.prems(3) Suc have "code p \<noteq> g"
      by (auto dest: spec [of _ 0])
    moreover have "scan_code ps g = pid (ps ! k)"
    proof (rule Cons.IH)
      show "k < length ps" using Cons.prems(1) Suc by simp
      show "code (ps ! k) = g" using Cons.prems(2) Suc by simp
      show "\<forall>j<length ps. code (ps ! j) = g \<longrightarrow> j = k"
        using Cons.prems(3) Suc by (auto dest: spec [of _ "Suc _"])
    qed
    ultimately show ?thesis using Suc by simp
  qed
qed

lemma Task_Create_caller:
  assumes t: "table_ok s" and r: "one_RUNNING s" and k: "KernelActive s"
  shows "\<exists>res s'. Task_Create tt ticks usp f py a s = Some (res, s')
     \<and> Cp s' = Cp s \<and> MAXTHREAD s' = MAXTHREAD s
     \<and> Process s' ! Cp s
         = (Process s ! Cp s)\<lparr>pri := py, arg := a, request := NONE, code := f, sp := usp\<rparr>
     \<and> (\<forall>i<MAXTHREAD s. i \<noteq> Cp s \<longrightarrow>
           code (Process s' ! i) = f \<or> Process s' ! i = Process s ! i)"
proof -
  let ?u = "Task_Create_entered usp f py a s"
  let ?K = "Kernel_Create_Task tt f py a ?u"
  let ?s' = "Next_Kernel_Request_exit ?K"
  let ?cp = "(Process s ! Cp s)\<lparr>pri := py, arg := a, request := CREATE, code := f, sp := usp\<rparr>"
  from r have c: "Cp s < MAXTHREAD s" and run: "state (Process s ! Cp s) = RUNNING"
    by (simp_all add: one_RUNNING_def)
  have TC: "Task_Create tt ticks usp f py a s = Some (Task_Create_result ?K, ?s')"
    using k c by (rule Task_Create_active)
  have Pu: "Process ?u = (Process s)[Cp s := ?cp]" and Cu: "Cp ?u = Cp s"
    and Mu: "MAXTHREAD ?u = MAXTHREAD s"
    using c
    by (simp_all add: Task_Create_entered_def Task_Create_request_def Enter_Kernel_def
        Disable_Interrupt_def upd_Cp_def MAXTHREAD_def)
  have tu: "table_ok ?u"
    using t unfolding Task_Create_entered_def Enter_Kernel_def
    by (simp add: upd_Cp_field_inv scalar_inv Task_Create_request_inv)
  have nu: "\<And>i. i < MAXTHREAD s \<Longrightarrow> Process ?u ! i = (if i = Cp s then ?cp else Process s ! i)"
    by (simp add: Pu MAXTHREAD_def nth_list_update)
  have CK: "Cp ?K = Cp s" by (simp add: Kernel_Create_Task_frame Cu)
  have K: "MAXTHREAD ?K = MAXTHREAD s \<and> Process ?K ! Cp s = ?cp
      \<and> (\<forall>i<MAXTHREAD s. i \<noteq> Cp s \<longrightarrow>
            code (Process ?K ! i) = f \<or> Process ?K ! i = Process s ! i)"
  proof (cases "Tasks ?u = MAXTHREAD ?u")
    case True
    then have "?K = ?u\<lparr>err := MAX_PROCESS_ERR\<rparr>" by (rule Kernel_Create_Task_full)
    then have "Process ?K = Process ?u" by simp
    then show ?thesis using c by (simp add: MAXTHREAD_def nu [unfolded MAXTHREAD_def] Pu)
  next
    case False
    with tu have "live ?u < MAXTHREAD ?u" by (simp add: table_ok_def)
    then obtain x where x: "first_DEAD ?u x" using exists_first_DEAD by blast
    then have xM: "x < MAXTHREAD s" and xd: "state (Process ?u ! x) = DEAD"
      by (simp_all add: first_DEAD_def Mu)
    have "state (Process ?u ! Cp s) = RUNNING" using c run by (simp add: nu)
    with xd have xc: "x \<noteq> Cp s" by auto
    have "?K = ?u\<lparr>Tasks := Tasks ?u + 1, last_PID := last_PID ?u + 1,
         Process := (Process ?u)[x := new_PD tt f py a ?u x], err := NO_ERR\<rparr>"
      using False x by (rule Kernel_Create_Task_alloc)
    then have PK: "Process ?K = (Process ?u)[x := new_PD tt f py a ?u x]" by simp
    have nK: "\<And>i. i < MAXTHREAD s \<Longrightarrow>
        Process ?K ! i = (if i = x then new_PD tt f py a ?u x else Process ?u ! i)"
      by (simp add: PK Pu MAXTHREAD_def nth_list_update)
    have "code (new_PD tt f py a ?u x) = f" by (simp add: new_PD_def)
    then show ?thesis
      using c xc by (auto simp: nK nu) (simp add: PK Pu MAXTHREAD_def)
  qed
  have Ps': "Process ?s' = (Process ?K)[Cp s := (Process ?K ! Cp s)\<lparr>request := NONE\<rparr>]"
    and Cs': "Cp ?s' = Cp s"
    by (simp_all add: Next_Kernel_Request_exit_def Let_def upd_Cp_def CK)
  from K have MK: "length (Process ?K) = MAXTHREAD s" by (simp add: MAXTHREAD_def)
  have "MAXTHREAD ?s' = MAXTHREAD s" by (simp add: Ps' MAXTHREAD_def MK [unfolded MAXTHREAD_def])
  moreover have "Process ?s' ! Cp s
      = (Process s ! Cp s)\<lparr>pri := py, arg := a, request := NONE, code := f, sp := usp\<rparr>"
    using c K by (simp add: Ps' MK)
  moreover have "\<forall>i<MAXTHREAD s. i \<noteq> Cp s \<longrightarrow>
      code (Process ?s' ! i) = f \<or> Process ?s' ! i = Process s ! i"
    using K by (simp add: Ps')
  ultimately show ?thesis using TC Cs' by blast
qed

text \<open>
  C9. When the kernel is active, in every reachable state a call \<open>Task_Create(f, py, arg)\<close>
  returns to the caller with the caller still current, and the caller's own descriptor
  has \<open>code = f\<close>, \<open>pri = py\<close> and \<open>arg = arg\<close> (with \<open>sp\<close> the saved stack pointer and the
  request cleared; every other field as before): the fields written to pass the
  parameters are not restored. When \<open>f\<close> differs from the caller's entry point and no
  other slot held that entry point, \<open>findPIDByFuncPtr\<close> on it gave the caller's pid before
  the call and gives \<open>-1\<close> after it.
\<close>

theorem Task_Create_overwrites_caller:
  assumes "reachable tt s" and "KernelActive s"
  shows "\<exists>res s'. Task_Create tt ticks usp f py a s = Some (res, s')
     \<and> Cp s' = Cp s
     \<and> Process s' ! Cp s
         = (Process s ! Cp s)\<lparr>pri := py, arg := a, request := NONE, code := f, sp := usp\<rparr>
     \<and> code (Process s' ! Cp s') = f \<and> pri (Process s' ! Cp s') = py
     \<and> arg (Process s' ! Cp s') = a
     \<and> (f \<noteq> code (Process s ! Cp s)
          \<and> (\<forall>i<MAXTHREAD s. code (Process s ! i) = code (Process s ! Cp s) \<longrightarrow> i = Cp s)
         \<longrightarrow> findPIDByFuncPtr s (code (Process s ! Cp s)) = pid (Process s ! Cp s)
             \<and> findPIDByFuncPtr s' (code (Process s ! Cp s)) = - 1)"
proof -
  from reachable_inv [OF assms(1)] assms(2) have t: "table_ok s" and r: "one_RUNNING s"
    by (simp_all add: kernel_inv_def)
  from r have c: "Cp s < MAXTHREAD s" by (simp add: one_RUNNING_def)
  let ?g = "code (Process s ! Cp s)"
  from Task_Create_caller [OF t r assms(2), of tt ticks usp f py a]
  obtain res s' where TC: "Task_Create tt ticks usp f py a s = Some (res, s')"
    and Cs': "Cp s' = Cp s" and Ms': "MAXTHREAD s' = MAXTHREAD s"
    and cp: "Process s' ! Cp s
         = (Process s ! Cp s)\<lparr>pri := py, arg := a, request := NONE, code := f, sp := usp\<rparr>"
    and others: "\<forall>i<MAXTHREAD s. i \<noteq> Cp s \<longrightarrow>
           code (Process s' ! i) = f \<or> Process s' ! i = Process s ! i"
    by blast
  have lookup: "f \<noteq> ?g \<and> (\<forall>i<MAXTHREAD s. code (Process s ! i) = ?g \<longrightarrow> i = Cp s)
      \<longrightarrow> findPIDByFuncPtr s ?g = pid (Process s ! Cp s) \<and> findPIDByFuncPtr s' ?g = - 1"
  proof
    assume a: "f \<noteq> ?g \<and> (\<forall>i<MAXTHREAD s. code (Process s ! i) = ?g \<longrightarrow> i = Cp s)"
    have before: "findPIDByFuncPtr s ?g = pid (Process s ! Cp s)"
      unfolding findPIDByFuncPtr_def
      using c a by (intro scan_code_unique) (simp_all add: MAXTHREAD_def)
    have "\<forall>i<MAXTHREAD s. code (Process s' ! i) \<noteq> ?g"
    proof (intro allI impI)
      fix i assume i: "i < MAXTHREAD s"
      show "code (Process s' ! i) \<noteq> ?g"
      proof (cases "i = Cp s")
        case True
        with a cp show ?thesis by simp
      next
        case False
        with others i have "code (Process s' ! i) = f \<or> Process s' ! i = Process s ! i" by blast
        with a i False show ?thesis by auto
      qed
    qed
    then have "\<forall>p\<in>set (Process s'). code p \<noteq> ?g"
      using Ms' by (auto simp: MAXTHREAD_def in_set_conv_nth)
    then have "findPIDByFuncPtr s' ?g = - 1"
      unfolding findPIDByFuncPtr_def by (rule scan_code_none)
    with before show "findPIDByFuncPtr s ?g = pid (Process s ! Cp s) \<and> findPIDByFuncPtr s' ?g = - 1"
      by simp
  qed
  from cp have "code (Process s' ! Cp s') = f \<and> pri (Process s' ! Cp s') = py
      \<and> arg (Process s' ! Cp s') = a"
    by (simp add: Cs')
  with TC Cs' cp lookup show ?thesis by blast
qed

theorem Task_Create_overwrites_caller_witness:
  "reachable 0x0456 demo_started \<and> KernelActive demo_started
   \<and> code (Process demo_started ! Cp demo_started) = 0x0123
   \<and> findPIDByFuncPtr demo_started 0x0123 = 1
   \<and> (\<exists>res s'. Task_Create 0x0456 [] (WorkSpace_ptr 0 5) 0x0999 5 7 demo_started = Some (res, s')
        \<and> code (Process s' ! Cp s') = 0x0999 \<and> pri (Process s' ! Cp s') = 5
        \<and> arg (Process s' ! Cp s') = 7
        \<and> findPIDByFuncPtr s' 0x0123 = - 1)"
proof -
  have k: "KernelActive demo_started" by code_simp
  have g: "code (Process demo_started ! Cp demo_started) = 0x0123"
    "pid (Process demo_started ! Cp demo_started) = 1"
    by code_simp+
  have u: "(0x0999 :: 16 word) \<noteq> code (Process demo_started ! Cp demo_started)
      \<and> (\<forall>i<MAXTHREAD demo_started.
            code (Process demo_started ! i) = code (Process demo_started ! Cp demo_started)
            \<longrightarrow> i = Cp demo_started)"
    by code_simp
  from Task_Create_overwrites_caller [OF demo_reachable(3) k, of "[]" "WorkSpace_ptr 0 5" "0x0999" 5 7] u
  obtain res s' where
    "Task_Create 0x0456 [] (WorkSpace_ptr 0 5) 0x0999 5 7 demo_started = Some (res, s')"
    "code (Process s' ! Cp s') = 0x0999" "pri (Process s' ! Cp s') = 5"
    "arg (Process s' ! Cp s') = 7"
    "findPIDByFuncPtr demo_started (code (Process demo_started ! Cp demo_started))
       = pid (Process demo_started ! Cp demo_started)"
    "findPIDByFuncPtr s' (code (Process demo_started ! Cp demo_started)) = - 1"
    by blast
  with demo_reachable(3) k g show ?thesis by (simp only:) blast
qed

section \<open>Lookup by PID does not look at the state\<close>

lemma findProcessByPID_cong:
  "map pid (Process s') = map pid (Process s) \<Longrightarrow> findProcessByPID s' q = findProcessByPID s q"
  unfolding findProcessByPID_def by (rule scan_pid_cong)

lemma OS_Init_slots: "\<forall>p\<in>set (Process (OS_Init s)). pid p = 0 \<and> state p = DEAD"
  by (simp add: OS_Init_def zero_PD_def)

lemma exit_frame:
  "err (Next_Kernel_Request_exit s) = err s"
  "map pid (Process (Next_Kernel_Request_exit s)) = map pid (Process s)"
  "map state (Process (Next_Kernel_Request_exit s)) = map state (Process s)"
  by (simp_all add: Next_Kernel_Request_exit_def Let_def upd_Cp_def map_update_same)

lemma Suspend_pid_0:
  assumes t: "table_ok s" and r: "one_RUNNING s" and k: "KernelActive s"
    and z: "\<exists>p\<in>set (Process s). pid p = 0"
  shows "\<exists>i u. first_with_pid s 0 i \<and> state (Process s ! i) = DEAD
     \<and> Kernel_Iteration tt ticks usp (Task_Suspend 0 s) = Some u
     \<and> err u = SUSPEND_NONRUNNING_TASK_ERR"
proof -
  let ?e = "Enter_Kernel usp (Task_Suspend 0 s)"
  let ?u = "upd_Cp (\<lambda>p. p\<lparr>sp := usp\<rparr>) ?e"
  from r have c: "Cp s < MAXTHREAD s" by (simp add: one_RUNNING_def)
  from z have "findProcessByPID s 0 \<noteq> None" by (auto simp: findProcessByPID_None)
  then obtain i where i: "first_with_pid s 0 i" by (auto simp: findProcessByPID_Some)
  then have iM: "i < MAXTHREAD s" and "pid (Process s ! i) = 0"
    by (simp_all add: first_with_pid_def)
  with t have dead: "state (Process s ! i) = DEAD" by (simp add: table_ok_def)
  have cs: "CurrentSp ?e = usp" by (simp add: Enter_Kernel_def)
  have Pu: "Process ?u
      = (Process s)[Cp s := (Process s ! Cp s)\<lparr>request := SUSPEND, request_arg := 0, sp := usp\<rparr>]"
    and Cu: "Cp ?u = Cp s"
    using c k
    by (simp_all add: Task_Suspend_def Enter_Kernel_def Disable_Interrupt_def upd_Cp_def
        MAXTHREAD_def)
  have rq: "request (Process ?u ! Cp ?u) = SUSPEND" and ra: "Cp_request_arg ?u = 0"
    using c by (simp_all add: Pu Cu Cp_request_arg_def MAXTHREAD_def)
  have sw: "Next_Kernel_Request_switch tt ticks ?e = Some (Kernel_Suspend_Task ?u)"
    unfolding Next_Kernel_Request_switch_def Let_def cs rq by simp
  have "map pid (Process ?u) = map pid (Process s)"
    by (simp add: Pu map_update_same)
  then have "findProcessByPID ?u 0 = findProcessByPID s 0" by (rule findProcessByPID_cong)
  with i have iu: "first_with_pid ?u (Cp_request_arg ?u) i"
    by (simp add: ra findProcessByPID_Some [symmetric])
  have "state (Process ?u ! i) = state (Process s ! i)"
    using iM by (cases "i = Cp s") (simp_all add: Pu MAXTHREAD_def)
  with dead have "state (Process ?u ! i) \<noteq> READY" by simp
  with iu have "Kernel_Suspend_Task ?u = ?u\<lparr>err := SUSPEND_NONRUNNING_TASK_ERR\<rparr>"
    by (rule Kernel_Suspend_Task_not_READY)
  with sw have "Kernel_Iteration tt ticks usp (Task_Suspend 0 s)
      = Some (Next_Kernel_Request_exit (?u\<lparr>err := SUSPEND_NONRUNNING_TASK_ERR\<rparr>))"
    by (simp add: Kernel_Iteration_def)
  moreover have "err (Next_Kernel_Request_exit (?u\<lparr>err := SUSPEND_NONRUNNING_TASK_ERR\<rparr>))
      = SUSPEND_NONRUNNING_TASK_ERR"
    by (simp add: exit_frame)
  ultimately show ?thesis using i dead by blast
qed

lemma Terminate_keeps_pid:
  assumes t: "table_ok s" and r: "one_RUNNING s" and k: "KernelActive s"
    and it: "Kernel_Iteration tt ticks usp (Task_Terminate s) = Some u"
  shows "map pid (Process u) = map pid (Process s) \<and> state (Process u ! Cp s) = DEAD"
proof -
  let ?e = "Enter_Kernel usp (Task_Terminate s)"
  let ?u = "upd_Cp (\<lambda>p. p\<lparr>sp := usp\<rparr>) ?e"
  let ?v = "upd_Cp (\<lambda>p. p\<lparr>state := DEAD\<rparr>) ?u"
  from r have c: "Cp s < MAXTHREAD s" by (simp add: one_RUNNING_def)
  have cs: "CurrentSp ?e = usp" by (simp add: Enter_Kernel_def)
  have Pu: "Process ?u
      = (Process s)[Cp s := (Process s ! Cp s)\<lparr>request := TERMINATE, sp := usp\<rparr>]"
    and Cu: "Cp ?u = Cp s"
    using c k
    by (simp_all add: Task_Terminate_def Enter_Kernel_def Disable_Interrupt_def upd_Cp_def
        MAXTHREAD_def)
  have rq: "request (Process ?u ! Cp ?u) = TERMINATE"
    using c by (simp add: Pu Cu MAXTHREAD_def)
  have sw: "Next_Kernel_Request_switch tt ticks ?e = Dispatch ticks ?v"
    unfolding Next_Kernel_Request_switch_def Let_def cs rq by simp
  with it obtain d where d: "Dispatch ticks ?v = Some d" and u: "u = Next_Kernel_Request_exit d"
    by (auto simp: Kernel_Iteration_def)
  have tu: "table_ok ?u" and ru: "one_RUNNING ?u"
    using t r k
    by (simp_all add: Enter_Kernel_def upd_Cp_field_inv scalar_inv
        Task_call_inv [of Call_Terminate, simplified])
  have X: "DEAD \<noteq> RUNNING" by simp
  from Dispatch_inv [OF d retire_Cp [OF tu ru X]]
  have pd: "map pid (Process d) = map pid (Process ?v)"
    and dd: "map (\<lambda>p. state p = DEAD) (Process d) = map (\<lambda>p. state p = DEAD) (Process ?v)"
    by simp_all
  have Pv: "Process ?v = (Process s)[Cp s :=
      (Process s ! Cp s)\<lparr>request := TERMINATE, sp := usp, state := DEAD\<rparr>]"
    using c by (simp add: upd_Cp_def [of _ ?u] Pu Cu MAXTHREAD_def)
  have pv: "map pid (Process ?v) = map pid (Process s)"
    by (simp add: Pv map_update_same)
  have lv: "length (Process ?v) = MAXTHREAD s" by (simp add: Pv MAXTHREAD_def)
  from dd have ld: "length (Process d) = length (Process ?v)" by (rule map_eq_imp_length_eq)
  from dd have "map (\<lambda>p. state p = DEAD) (Process d) ! Cp s
      = map (\<lambda>p. state p = DEAD) (Process ?v) ! Cp s" by simp
  with c ld lv have "(state (Process d ! Cp s) = DEAD) = (state (Process ?v ! Cp s) = DEAD)"
    by simp
  moreover have "state (Process ?v ! Cp s) = DEAD"
    using c by (simp add: Pv MAXTHREAD_def)
  ultimately have dc: "state (Process d ! Cp s) = DEAD" by simp
  from exit_frame(3) [of d] have "map state (Process u) ! Cp s = map state (Process d) ! Cp s"
    by (simp add: u)
  moreover from exit_frame(3) [of d] have "length (Process u) = length (Process d)"
    unfolding u by (rule map_eq_imp_length_eq)
  ultimately have "state (Process u ! Cp s) = state (Process d ! Cp s)"
    using c ld lv by simp
  with dc pd pv exit_frame(2) [of d] show ?thesis by (simp add: u)
qed

text \<open>
  C10. \<open>findProcessByPID\<close> depends on the \<open>pid\<close> fields only: two tables with the same pids
  give the same result whatever the states are. \<open>OS_Init\<close> leaves every slot with pid 0
  and DEAD. Hence, in every reachable state with the kernel active in which some slot has
  pid 0, the slot that PID 0 denotes is DEAD, and \<open>Task_Suspend(0)\<close> returns to the caller
  with \<open>err = SUSPEND_NONRUNNING_TASK_ERR\<close>, not \<open>PID_NOT_FOUND_ERR\<close>. Marking the current
  slot DEAD, as the TERMINATE branch does, changes no lookup; and when the kernel has
  dispatched the next task after a termination, the slot of the terminated task is DEAD
  and its PID is found exactly as before.
\<close>

theorem lookup_by_pid_ignores_state:
  "(map pid (Process s') = map pid (Process s) \<longrightarrow>
      findProcessByPID s' q = findProcessByPID s q)
   \<and> findProcessByPID (upd_Cp (\<lambda>p. p\<lparr>state := DEAD\<rparr>) s) q = findProcessByPID s q
   \<and> (\<forall>p\<in>set (Process (OS_Init s)). pid p = 0 \<and> state p = DEAD)
   \<and> (reachable tt s \<and> KernelActive s \<and> (\<exists>p\<in>set (Process s). pid p = 0) \<longrightarrow>
        (\<exists>i u. first_with_pid s 0 i \<and> state (Process s ! i) = DEAD
           \<and> Kernel_Iteration tt ticks usp (Task_Suspend 0 s) = Some u
           \<and> err u = SUSPEND_NONRUNNING_TASK_ERR))
   \<and> (reachable tt s \<and> KernelActive s \<longrightarrow>
        (\<forall>u. Kernel_Iteration tt ticks usp (Task_Terminate s) = Some u \<longrightarrow>
           state (Process u ! Cp s) = DEAD
           \<and> findProcessByPID u (pid (Process s ! Cp s))
               = findProcessByPID s (pid (Process s ! Cp s))
           \<and> findProcessByPID u (pid (Process s ! Cp s)) \<noteq> None))"
proof (intro conjI impI allI)
  assume "map pid (Process s') = map pid (Process s)"
  then show "findProcessByPID s' q = findProcessByPID s q" by (rule findProcessByPID_cong)
next
  show "findProcessByPID (upd_Cp (\<lambda>p. p\<lparr>state := DEAD\<rparr>) s) q = findProcessByPID s q"
    by (rule findProcessByPID_cong) (simp add: upd_Cp_def map_update_same)
next
  show "\<forall>p\<in>set (Process (OS_Init s)). pid p = 0 \<and> state p = DEAD" by (rule OS_Init_slots)
next
  assume a: "reachable tt s \<and> KernelActive s \<and> (\<exists>p\<in>set (Process s). pid p = 0)"
  with reachable_inv [of tt s] have "table_ok s" "one_RUNNING s"
    by (simp_all add: kernel_inv_def)
  then show "\<exists>i u. first_with_pid s 0 i \<and> state (Process s ! i) = DEAD
           \<and> Kernel_Iteration tt ticks usp (Task_Suspend 0 s) = Some u
           \<and> err u = SUSPEND_NONRUNNING_TASK_ERR"
    using a by (intro Suspend_pid_0) simp_all
next
  fix u
  assume a: "reachable tt s \<and> KernelActive s"
    and it: "Kernel_Iteration tt ticks usp (Task_Terminate s) = Some u"
  with reachable_inv [of tt s] have t: "table_ok s" and r: "one_RUNNING s"
    by (simp_all add: kernel_inv_def)
  from a have k: "KernelActive s" by simp
  from Terminate_keeps_pid [OF t r k it]
  have pd: "map pid (Process u) = map pid (Process s)" and dead: "state (Process u ! Cp s) = DEAD"
    by simp_all
  from r have c: "Cp s < length (Process s)" by (simp add: one_RUNNING_def MAXTHREAD_def)
  then have "Process s ! Cp s \<in> set (Process s)" by simp
  then have found: "findProcessByPID s (pid (Process s ! Cp s)) \<noteq> None"
    by (auto simp: findProcessByPID_None)
  from pd have same: "findProcessByPID u (pid (Process s ! Cp s))
      = findProcessByPID s (pid (Process s ! Cp s))"
    by (rule findProcessByPID_cong)
  show "state (Process u ! Cp s) = DEAD" by (rule dead)
  show "findProcessByPID u (pid (Process s ! Cp s)) = findProcessByPID s (pid (Process s ! Cp s))"
    by (rule same)
  show "findProcessByPID u (pid (Process s ! Cp s)) \<noteq> None"
    using same found by simp
qed

theorem lookup_by_pid_ignores_state_witness:
  "reachable 0x0456 demo_started \<and> KernelActive demo_started
   \<and> (\<exists>p\<in>set (Process demo_started). pid p = 0)
   \<and> (\<exists>i u. first_with_pid demo_started 0 i \<and> state (Process demo_started ! i) = DEAD
         \<and> Kernel_Iteration 0x0456 [] (WorkSpace_ptr 0 5) (Task_Suspend 0 demo_started) = Some u
         \<and> err u = SUSPEND_NONRUNNING_TASK_ERR)
   \<and> Kernel_Iteration 0x0456 [] (WorkSpace_ptr 0 5) (Task_Terminate demo_started)
       = Some (the (Kernel_Iteration 0x0456 [] (WorkSpace_ptr 0 5) (Task_Terminate demo_started)))
   \<and> state (Process (the (Kernel_Iteration 0x0456 [] (WorkSpace_ptr 0 5)
        (Task_Terminate demo_started))) ! Cp demo_started) = DEAD
   \<and> findProcessByPID (the (Kernel_Iteration 0x0456 [] (WorkSpace_ptr 0 5)
        (Task_Terminate demo_started))) (pid (Process demo_started ! Cp demo_started)) \<noteq> None"
proof -
  let ?u = "the (Kernel_Iteration 0x0456 [] (WorkSpace_ptr 0 5) (Task_Terminate demo_started))"
  have k: "KernelActive demo_started" by code_simp
  have z: "\<exists>p\<in>set (Process demo_started). pid p = 0" by code_simp
  have it: "Kernel_Iteration 0x0456 [] (WorkSpace_ptr 0 5) (Task_Terminate demo_started) = Some ?u"
    by code_simp
  note th = lookup_by_pid_ignores_state [of demo_started demo_started 0 "0x0456" "[]"
      "WorkSpace_ptr 0 5"]
  from th demo_reachable(3) k z
  have 1: "\<exists>i u. first_with_pid demo_started 0 i \<and> state (Process demo_started ! i) = DEAD
         \<and> Kernel_Iteration 0x0456 [] (WorkSpace_ptr 0 5) (Task_Suspend 0 demo_started) = Some u
         \<and> err u = SUSPEND_NONRUNNING_TASK_ERR"
    by blast
  from th demo_reachable(3) k it
  have 2: "state (Process ?u ! Cp demo_started) = DEAD
      \<and> findProcessByPID ?u (pid (Process demo_started ! Cp demo_started)) \<noteq> None"
    by blast
  from demo_reachable(3) k z 1 2 it show ?thesis by blast
qed

end
